theory Spec2Isabelle
  imports Complex_Main "HOL-Library.Word" "HOL-Library.Multiset"
    "HOL-Library.Char_ord" "HOL-Library.List_Lexorder"
begin

unbundle bit_operations_syntax

section \<open>JavaScript values used by the catalog code\<close>

text \<open>
  Strings are \<^typ>\<open>string\<close>; file contents are byte strings of the same type.
  JavaScript numbers that the code only uses as exact quantities (durations, sizes,
  counts) are \<^typ>\<open>real\<close>, \<^typ>\<open>int\<close> or \<^typ>\<open>nat\<close>; rounding of IEEE doubles is not
  represented. \<open>null\<close> and \<open>undefined\<close> are \<^const>\<open>None\<close>.
\<close>

definition digit10 :: "nat \<Rightarrow> char" where
  "digit10 d = ''0123456789'' ! d"

text \<open>\<open>String(n)\<close> for a non-negative integer \<open>n\<close>: its decimal digits.\<close>

fun String_nat :: "nat \<Rightarrow> string" where
  "String_nat n = (if n < 10 then [digit10 n] else String_nat (n div 10) @ [digit10 (n mod 10)])"

declare String_nat.simps [simp del]

definition digit36 :: "nat \<Rightarrow> char" where
  "digit36 d = ''0123456789abcdefghijklmnopqrstuvwxyz'' ! d"

text \<open>\<open>n.toString(36)\<close> for a non-negative integer \<open>n\<close>.\<close>

fun toString36 :: "nat \<Rightarrow> string" where
  "toString36 n = (if n < 36 then [digit36 n] else toString36 (n div 36) @ [digit36 (n mod 36)])"

declare toString36.simps [simp del]

text \<open>\<open>Math.round\<close> rounds to the nearest integer, halves upwards.\<close>

definition Math_round :: "real \<Rightarrow> int" where
  "Math_round x = \<lfloor>x + 1 / 2\<rfloor>"

text \<open>\<open>s.startsWith(p)\<close>.\<close>

definition startsWith :: "string \<Rightarrow> string \<Rightarrow> bool" where
  "startsWith s p = (take (length p) s = p)"

text \<open>\<open>x || null\<close> on an optional string: the empty string is falsy as well.\<close>

definition orNull :: "string option \<Rightarrow> string option" where
  "orNull x = (case x of None \<Rightarrow> None | Some s \<Rightarrow> if s = [] then None else Some s)"

section \<open>types.ts\<close>

text \<open>
  \<open>VideoInsertData\<close> and \<open>Video\<close>: every field of the former is a field of the latter,
  so \<open>Video\<close> is declared as its extension (the field \<open>id\<close> is \<open>id_v\<close> here).
\<close>

record VideoInsertData =
  filePath :: string
  fileName :: string
  fileSize :: nat
  duration :: real
  width :: "nat option"
  height :: "nat option"
  createdAt :: string
  directory :: string
  fileHash :: "string option"
  fileMtime :: "string option"

record Video = VideoInsertData +
  id_v :: string
  hasProxy :: bool
  hasSprite :: bool
  proxyPath :: "string option"
  spritePath :: "string option"
  thumbnailPath :: "string option"
  scannedAt :: "string option"

text \<open>A row of the \<open>videos\<close> table (columns \<open>id\<close>, \<open>duration\<close>, \<open>width\<close>, \<open>height\<close>,
  \<open>directory\<close> carry the suffix \<open>_col\<close>).\<close>

record VideoRow =
  id_col :: string
  file_path :: string
  file_name :: string
  file_size :: nat
  duration_col :: real
  width_col :: "nat option"
  height_col :: "nat option"
  created_at :: string
  directory_col :: string
  has_proxy :: int
  has_sprite :: int
  proxy_path :: "string option"
  sprite_path :: "string option"
  thumbnail_path :: "string option"
  file_hash :: "string option"
  file_mtime :: "string option"
  scanned_at :: "string option"

definition rowToVideo :: "VideoRow \<Rightarrow> Video" where
  "rowToVideo row =
     \<lparr> filePath = file_path row, fileName = file_name row, fileSize = file_size row,
       duration = duration_col row, width = width_col row, height = height_col row,
       createdAt = created_at row, directory = directory_col row,
       fileHash = file_hash row, fileMtime = file_mtime row,
       id_v = id_col row, hasProxy = (has_proxy row = 1), hasSprite = (has_sprite row = 1),
       proxyPath = proxy_path row, spritePath = sprite_path row,
       thumbnailPath = thumbnail_path row, scannedAt = scanned_at row \<rparr>"

section \<open>db.ts: the videos table\<close>

text \<open>
  The database is the list of its rows, in insertion order. \<open>id\<close> is the primary key
  and \<open>file_path\<close> is declared \<open>UNIQUE\<close>.
\<close>

text \<open>
  \<open>generateId\<close>: the loop keeps \<open>hash\<close> a 32-bit integer (\<open>hash & hash\<close> is ToInt32),
  so \<open>((hash << 5) - hash) + char\<close> is computed modulo \<open>2 ^ 32\<close>.
\<close>

definition hashStep :: "32 word \<Rightarrow> char \<Rightarrow> 32 word" where
  "hashStep hash c =
     (let hash1 = (push_bit 5 hash - hash) + of_char c;
          hash2 = hash1 AND hash1
      in hash2)"

fun hashLoop :: "32 word \<Rightarrow> string \<Rightarrow> 32 word" where
  "hashLoop hash [] = hash"
| "hashLoop hash (c # cs) = hashLoop (hashStep hash c) cs"

definition generateId :: "string \<Rightarrow> string" where
  "generateId filePath' = toString36 (nat \<bar>sint (hashLoop 0 filePath')\<bar>)"

text \<open>
  \<open>INSERT OR REPLACE INTO videos (id, file_path, ..., scanned_at)\<close>: every row that
  conflicts with the new one on the primary key or on the unique \<open>file_path\<close> is
  deleted, and the new row is stored with the column defaults in the columns that the
  statement does not name (\<open>has_proxy\<close>, \<open>has_sprite\<close> 0; the three asset paths NULL).
\<close>

definition insertOrReplace :: "VideoRow \<Rightarrow> VideoRow list \<Rightarrow> VideoRow list" where
  "insertOrReplace new rows =
     filter (\<lambda>r. id_col r \<noteq> id_col new \<and> file_path r \<noteq> file_path new) rows @ [new]"

definition getVideoById :: "VideoRow list \<Rightarrow> string \<Rightarrow> Video option" where
  "getVideoById rows i = map_option rowToVideo (find (\<lambda>r. id_col r = i) rows)"

definition getVideoByPath :: "VideoRow list \<Rightarrow> string \<Rightarrow> Video option" where
  "getVideoByPath rows p = map_option rowToVideo (find (\<lambda>r. file_path r = p) rows)"

text \<open>The \<open>VALUES\<close> of the insert statement of \<open>insertVideo\<close>, completed with the
  column defaults.\<close>

definition newVideoRow :: "string \<Rightarrow> string \<Rightarrow> VideoInsertData \<Rightarrow> VideoRow" where
  "newVideoRow i scannedAt' video =
     \<lparr> id_col = i, file_path = filePath video, file_name = fileName video,
       file_size = fileSize video, duration_col = duration video,
       width_col = width video, height_col = height video,
       created_at = createdAt video, directory_col = directory video,
       has_proxy = 0, has_sprite = 0,
       proxy_path = None, sprite_path = None, thumbnail_path = None,
       file_hash = orNull (fileHash video), file_mtime = orNull (fileMtime video),
       scanned_at = Some scannedAt' \<rparr>"

text \<open>\<open>insertVideo\<close>; \<open>now\<close> is \<open>new Date().toISOString()\<close>. The result is the new table
  and what \<open>getVideoById(id)\<close> reads back.\<close>

definition insertVideo ::
  "string \<Rightarrow> VideoInsertData \<Rightarrow> VideoRow list \<Rightarrow> VideoRow list \<times> Video option" where
  "insertVideo now video rows =
     (let i = generateId (filePath video);
          scannedAt' = now;
          rows' = insertOrReplace (newVideoRow i scannedAt' video) rows
      in (rows', getVideoById rows' i))"

text \<open>\<open>UPDATE videos SET ... WHERE id = ?\<close>.\<close>

definition updateVideoProxy ::
  "string \<Rightarrow> string \<Rightarrow> string \<Rightarrow> string \<Rightarrow> VideoRow list \<Rightarrow> VideoRow list" where
  "updateVideoProxy i proxyPath' spritePath' thumbnailPath' rows =
     map (\<lambda>r. if id_col r = i
               then r\<lparr> has_proxy := 1, has_sprite := 1, proxy_path := Some proxyPath',
                      sprite_path := Some spritePath', thumbnail_path := Some thumbnailPath' \<rparr>
               else r) rows"

definition updateVideoThumbnailAndSprite ::
  "string \<Rightarrow> string \<Rightarrow> string \<Rightarrow> VideoRow list \<Rightarrow> VideoRow list" where
  "updateVideoThumbnailAndSprite i thumbnailPath' spritePath' rows =
     map (\<lambda>r. if id_col r = i
               then r\<lparr> thumbnail_path := Some thumbnailPath', sprite_path := Some spritePath',
                      has_sprite := 1 \<rparr>
               else r) rows"

section \<open>Record keys\<close>

lemma hashStep_eq [simp]: "hashStep hash c = (push_bit 5 hash - hash) + of_char c"
  by (simp add: hashStep_def)

lemma hash_Aa: "hashLoop 0 ''/v/Aa.mp4'' = 1157130539"
  by simp

lemma hash_BB: "hashLoop 0 ''/v/BB.mp4'' = 1157130539"
  by simp

lemma hash_xhiu: "sint (hashLoop 0 ''/v/xhiu.mp4'') = 288397575"
  by simp

lemma hash_vqlnsfn: "sint (hashLoop 0 ''/v/vqlnsfn.mp4'') = - 288397575"
  by simp

lemma newVideoRow_sel [simp]:
  "id_col (newVideoRow i t v) = i"
  "file_path (newVideoRow i t v) = filePath v"
  by (simp_all add: newVideoRow_def)

lemma getVideoByPath_None_iff:
  "getVideoByPath rows p = None \<longleftrightarrow> (\<forall>r \<in> set rows. file_path r \<noteq> p)"
  unfolding getVideoByPath_def by (simp add: find_None_iff) blast

lemma set_insertOrReplace:
  "set (insertOrReplace new rows) =
   insert new {r \<in> set rows. id_col r \<noteq> id_col new \<and> file_path r \<noteq> file_path new}"
  unfolding insertOrReplace_def by auto

lemma getVideoByPath_insertVideo_same:
  "getVideoByPath (fst (insertVideo now v rows)) (filePath v) \<noteq> None"
  unfolding insertVideo_def Let_def
  by (simp add: getVideoByPath_None_iff set_insertOrReplace)

lemma getVideoByPath_insertVideo_twice:
  assumes "generateId (filePath v2) = generateId (filePath v1)" "filePath v2 \<noteq> filePath v1"
  shows "getVideoByPath (fst (insertVideo now2 v2 (fst (insertVideo now1 v1 rows)))) (filePath v1) = None"
  using assms
  unfolding insertVideo_def Let_def
  by (auto simp add: getVideoByPath_None_iff set_insertOrReplace)

text \<open>
  C9. \<open>generateId\<close> is not injective. Two distinct paths have the same 32-bit hash
  (and so the same id); two others have opposite hashes, which \<open>Math.abs\<close> identifies.
  Inserting a video under one path of such a pair and then a video under the other
  leaves no record for the first path, whatever the table held before.
\<close>

theorem generateId_not_injective:
  "''/v/Aa.mp4'' \<noteq> ''/v/BB.mp4''
   \<and> generateId ''/v/Aa.mp4'' = generateId ''/v/BB.mp4''
   \<and> sint (hashLoop 0 ''/v/vqlnsfn.mp4'') = - sint (hashLoop 0 ''/v/xhiu.mp4'')
   \<and> sint (hashLoop 0 ''/v/xhiu.mp4'') \<noteq> 0
   \<and> generateId ''/v/vqlnsfn.mp4'' = generateId ''/v/xhiu.mp4''
   \<and> \<not> inj generateId
   \<and> getVideoByPath (fst (insertVideo now1 (a\<lparr>filePath := ''/v/Aa.mp4''\<rparr>) rows))
         ''/v/Aa.mp4'' \<noteq> None
   \<and> getVideoByPath
         (fst (insertVideo now2 (b\<lparr>filePath := ''/v/BB.mp4''\<rparr>)
            (fst (insertVideo now1 (a\<lparr>filePath := ''/v/Aa.mp4''\<rparr>) rows)))) ''/v/Aa.mp4'' = None"
proof -
  have ne: "''/v/Aa.mp4'' \<noteq> ''/v/BB.mp4''"
    by simp
  have eq: "generateId ''/v/Aa.mp4'' = generateId ''/v/BB.mp4''"
    unfolding generateId_def by (simp only: hash_Aa hash_BB)
  have opp: "sint (hashLoop 0 ''/v/vqlnsfn.mp4'') = - sint (hashLoop 0 ''/v/xhiu.mp4'')"
    by (simp only: hash_xhiu hash_vqlnsfn)
  have nz: "sint (hashLoop 0 ''/v/xhiu.mp4'') \<noteq> 0"
    unfolding hash_xhiu by simp
  have eq2: "generateId ''/v/vqlnsfn.mp4'' = generateId ''/v/xhiu.mp4''"
    unfolding generateId_def hash_xhiu hash_vqlnsfn by simp
  have ninj: "\<not> inj generateId"
  proof
    assume "inj generateId"
    then have "''/v/Aa.mp4'' = ''/v/BB.mp4''"
      using eq by (rule injD)
    with ne show False ..
  qed
  have present: "getVideoByPath (fst (insertVideo now1 (a\<lparr>filePath := ''/v/Aa.mp4''\<rparr>) rows))
      ''/v/Aa.mp4'' \<noteq> None"
    using getVideoByPath_insertVideo_same [of now1 "a\<lparr>filePath := ''/v/Aa.mp4''\<rparr>" rows]
    by simp
  have gone: "getVideoByPath
      (fst (insertVideo now2 (b\<lparr>filePath := ''/v/BB.mp4''\<rparr>)
         (fst (insertVideo now1 (a\<lparr>filePath := ''/v/Aa.mp4''\<rparr>) rows)))) ''/v/Aa.mp4'' = None"
    using getVideoByPath_insertVideo_twice
      [of "b\<lparr>filePath := ''/v/BB.mp4''\<rparr>" "a\<lparr>filePath := ''/v/Aa.mp4''\<rparr>" now2 now1 rows] eq
    by simp
  from ne eq opp nz eq2 ninj present gone show ?thesis
    by blast
qed

section \<open>ffmpeg.ts: sprite sheet layout\<close>

text \<open>\<open>SpriteConfig\<close> (fields \<open>width\<close>, \<open>height\<close> carry the suffix \<open>_sc\<close>).\<close>

record SpriteConfig =
  width_sc :: nat
  height_sc :: nat
  columns :: int
  rows :: int
  interval :: real
  totalFrames :: int

text \<open>
  The pure prefix of \<open>generateSpriteSheet\<close>: the tier chosen from the duration
  (\<open>fps\<close>, \<open>columns\<close>, \<open>rows\<close>), then \<open>totalFrames\<close> and \<open>interval\<close>. Division by
  \<open>totalFrames = 0\<close> (a duration that is not positive) is NaN or Infinity in the source
  and 0 here.
\<close>

definition spriteTier :: "real \<Rightarrow> real \<times> int \<times> int" where
  "spriteTier duration' =
     (if duration' \<le> 60 then (1, 10, \<lceil>min duration' 60 / 10\<rceil>)
      else if duration' \<le> 300 then (1 / 3, 10, 10)
      else if duration' \<le> 1800 then (1 / 12, 15, 10)
      else (1 / 30, 20, 10))"

definition spriteConfig :: "real \<Rightarrow> SpriteConfig" where
  "spriteConfig duration' =
     (case spriteTier duration' of (fps, columns', rows') \<Rightarrow>
        let totalFrames' = min \<lceil>duration' * fps\<rceil> (columns' * rows');
            interval' = duration' / real_of_int totalFrames';
            thumbWidth = 160;
            thumbHeight = 90
        in \<lparr> width_sc = thumbWidth, height_sc = thumbHeight, columns = columns',
             rows = rows', interval = interval', totalFrames = totalFrames' \<rparr>)"















section \<open>ffmpeg.ts: \<open>parseFrameRate\<close>\<close>

text \<open>
  A JavaScript number that may be NaN. The two conversions the function calls,
  \<open>Number\<close> and \<open>parseFloat\<close>, are parameters; their infinite results are not
  represented.
\<close>

datatype number = NaN | Num real

definition truthy :: "number \<Rightarrow> bool" where
  "truthy x = (case x of NaN \<Rightarrow> False | Num r \<Rightarrow> r \<noteq> 0)"

text \<open>\<open>s.split(sep)\<close> for a one-character separator.\<close>

fun splitOn :: "char \<Rightarrow> string \<Rightarrow> string list" where
  "splitOn sep [] = [[]]"
| "splitOn sep (c # cs) =
     (if c = sep then [] # splitOn sep cs
      else (case splitOn sep cs of [] \<Rightarrow> [[c]] | part # parts \<Rightarrow> (c # part) # parts))"

definition parseFrameRate ::
  "(string \<Rightarrow> number) \<Rightarrow> (string \<Rightarrow> number) \<Rightarrow> string option \<Rightarrow> number" where
  "parseFrameRate Number parseFloat frameRate' =
     (case frameRate' of
        None \<Rightarrow> Num 30
      | Some fr \<Rightarrow>
          if fr = [] then Num 30
          else if CHR ''/'' \<in> set fr then
            (case map Number (splitOn CHR ''/'' fr) of
               num # den # _ \<Rightarrow>
                 if truthy den
                 then (case (num, den) of
                         (Num n, Num d) \<Rightarrow> Num (n / d)
                       | _ \<Rightarrow> NaN)
                 else Num 30
             | _ \<Rightarrow> Num 30)
          else (let x = parseFloat fr in if truthy x then x else Num 30))"

lemma splitOn_no_sep: "sep \<notin> set s \<Longrightarrow> splitOn sep s = [s]"
  by (induction s) auto

lemma splitOn_append:
  "sep \<notin> set a \<Longrightarrow> splitOn sep (a @ sep # b) = a # splitOn sep b"
  by (induction a) auto

lemma parseFrameRate_rational:
  assumes "CHR ''/'' \<notin> set a" "CHR ''/'' \<notin> set b"
    and "Number a = Num n" "Number b = Num d" "d \<noteq> 0"
  shows "parseFrameRate Number parseFloat (Some (a @ ''/'' @ b)) = Num (n / d)"
  using assms
  by (simp add: parseFrameRate_def splitOn_append splitOn_no_sep truthy_def)

text \<open>
  C6. The fallback to 30 misses one malformed input: a numerator that is not a number
  over a denominator that is one. For \<open>abc/2\<close>, \<open>Number\<close> gives NaN and 2, the
  denominator is truthy, and the function returns NaN, not 30.
\<close>

theorem parseFrameRate_nan_numerator:
  assumes "Number ''abc'' = NaN" and "Number ''2'' = Num 2"
  shows "parseFrameRate Number parseFloat (Some ''abc/2'') = NaN"
  using assms by (simp add: parseFrameRate_def truthy_def)

theorem parseFrameRate_nan_numerator_witness:
  "(\<lambda>s. if s = ''2'' then Num 2 else NaN) ''abc'' = NaN
   \<and> (\<lambda>s. if s = ''2'' then Num 2 else NaN) ''2'' = Num 2
   \<and> parseFrameRate (\<lambda>s. if s = ''2'' then Num 2 else NaN) (\<lambda>s. NaN) (Some ''abc/2'') = NaN"
  using parseFrameRate_nan_numerator [of "\<lambda>s. if s = ''2'' then Num 2 else NaN" "\<lambda>s. NaN"]
  by simp

section \<open>scanner.ts: the directory walk\<close>

text \<open>
  \<open>isVideoFile\<close> and \<open>shouldSkipPath\<close>. \<open>toLowerCase\<close> is taken on ASCII letters;
  \<open>extname\<close> is Node's \<open>path.extname\<close> on a single path component (the part from the last
  dot on, empty when there is no dot, when the only dot is the first character, and for
  \<open>..\<close>).
\<close>

definition VIDEO_EXTENSIONS :: "string list" where
  "VIDEO_EXTENSIONS = [''.mov'', ''.mp4'', ''.m4v'', ''.avi'', ''.mkv'', ''.webm'']"

definition lowerChar :: "char \<Rightarrow> char" where
  "lowerChar c =
     (case map_of (zip ''ABCDEFGHIJKLMNOPQRSTUVWXYZ'' ''abcdefghijklmnopqrstuvwxyz'') c of
        None \<Rightarrow> c
      | Some l \<Rightarrow> l)"

definition toLowerCase :: "string \<Rightarrow> string" where
  "toLowerCase s = map lowerChar s"

fun lastIndexOf :: "char \<Rightarrow> string \<Rightarrow> nat option" where
  "lastIndexOf c [] = None"
| "lastIndexOf c (x # xs) =
     (case lastIndexOf c xs of
        Some i \<Rightarrow> Some (Suc i)
      | None \<Rightarrow> if x = c then Some 0 else None)"

definition extname :: "string \<Rightarrow> string" where
  "extname name =
     (case lastIndexOf CHR ''.'' name of
        None \<Rightarrow> []
      | Some i \<Rightarrow> if i = 0 \<or> name = ''..'' then [] else drop i name)"

definition isVideoFile :: "string \<Rightarrow> bool" where
  "isVideoFile filePath' = (let ext = toLowerCase (extname filePath') in ext \<in> set VIDEO_EXTENSIONS)"

definition shouldSkipPath :: "string \<Rightarrow> bool" where
  "shouldSkipPath name =
     (if startsWith name ''.'' then True
      else if name \<in> set [''node_modules'', ''__MACOSX'', ''.Trash'', ''.Spotlight-V100'', ''.fseventsd'']
      then True
      else False)"

text \<open>
  A directory as \<open>fs.readdir\<close> with \<open>withFileTypes\<close> shows it: each entry is a regular
  file, a directory with its own listing, or something else (a link, a socket); a listing
  is the entries in the order they are returned, or the failure of the read.
\<close>

datatype dirent = RegularFile string | Directory string listing | OtherEntry string
  and listing = ReadError | Entries "dirent list"

fun entryName :: "dirent \<Rightarrow> string" where
  "entryName (RegularFile n) = n"
| "entryName (Directory n _) = n"
| "entryName (OtherEntry n) = n"

text \<open>\<open>path.join\<close> of a normalised path and one component.\<close>

definition path_join :: "string \<Rightarrow> string \<Rightarrow> string" where
  "path_join a b = a @ ''/'' @ b"

text \<open>
  \<open>scanDirectory\<close>: the generator, as the list of the paths it yields. A read failure is
  caught and ends the walk of that directory only; \<open>scanEntries\<close> is the \<open>for\<close> loop.
\<close>

fun scanDirectory :: "string \<Rightarrow> listing \<Rightarrow> string list"
  and scanEntries :: "string \<Rightarrow> dirent list \<Rightarrow> string list" where
  "scanDirectory rootPath ReadError = []"
| "scanDirectory rootPath (Entries entries) = scanEntries rootPath entries"
| "scanEntries rootPath [] = []"
| "scanEntries rootPath (entry # rest) =
     (if shouldSkipPath (entryName entry) then scanEntries rootPath rest
      else (let fullPath = path_join rootPath (entryName entry) in
        (case entry of
           Directory _ sub \<Rightarrow> scanDirectory fullPath sub @ scanEntries rootPath rest
         | RegularFile _ \<Rightarrow>
             if isVideoFile (entryName entry) then fullPath # scanEntries rootPath rest
             else scanEntries rootPath rest
         | OtherEntry _ \<Rightarrow> scanEntries rootPath rest)))"

text \<open>
  The walk as the specification words it: all regular files of the tree, each as the list of
  its path components below the root, in depth-first order; a component is hidden when it
  begins with a dot, deny-listed when it is one of the artifact directory names; a file is
  eligible when its extension is in the allow-list up to case and none of its components
  is hidden or deny-listed.
\<close>

fun allFiles :: "listing \<Rightarrow> string list list"
  and allFilesIn :: "dirent list \<Rightarrow> string list list" where
  "allFiles ReadError = []"
| "allFiles (Entries entries) = allFilesIn entries"
| "allFilesIn [] = []"
| "allFilesIn (RegularFile n # rest) = [n] # allFilesIn rest"
| "allFilesIn (Directory n sub # rest) = map ((#) n) (allFiles sub) @ allFilesIn rest"
| "allFilesIn (OtherEntry n # rest) = allFilesIn rest"

definition hiddenName :: "string \<Rightarrow> bool" where
  "hiddenName c = (c \<noteq> [] \<and> hd c = CHR ''.'')"

definition DENY_LIST :: "string list" where
  "DENY_LIST = [''node_modules'', ''__MACOSX'', ''.Trash'', ''.Spotlight-V100'', ''.fseventsd'']"

definition hasVideoExtension :: "string \<Rightarrow> bool" where
  "hasVideoExtension name = list_ex (\<lambda>e. toLowerCase (extname name) = toLowerCase e) VIDEO_EXTENSIONS"

definition eligible :: "string list \<Rightarrow> bool" where
  "eligible p = (p \<noteq> [] \<and> hasVideoExtension (last p)
     \<and> list_all (\<lambda>c. \<not> hiddenName c \<and> c \<notin> set DENY_LIST) p)"

definition joinAll :: "string \<Rightarrow> string list \<Rightarrow> string" where
  "joinAll rootPath p = foldl path_join rootPath p"

section \<open>scanner.ts: fingerprints\<close>

text \<open>
  What \<open>fs.stat\<close> and \<open>fs.open\<close> give for a readable file: its bytes (\<open>stats.size\<close> is
  their number) and the two timestamps, each as its \<open>toISOString()\<close>.
  \<open>fingerprintInput\<close> is the byte string that \<open>getFileFingerprint\<close> feeds to the digest:
  the first 65536 bytes read, then \<open>String(stats.size)\<close>, then the ISO modification time.
\<close>

record file_stat =
  content :: string
  mtimeISO :: string
  birthtimeISO :: string

definition fingerprintInput :: "file_stat \<Rightarrow> string" where
  "fingerprintInput f =
     (let buffer = take 65536 (content f);
          size' = length (content f)
      in buffer @ String_nat size' @ mtimeISO f)"

section \<open>The environment and the state\<close>

text \<open>
  Everything outside the program is a parameter, the record \<open>world\<close>:
  \<^item> \<open>files\<close>: the readable files by path (\<open>None\<close>: \<open>fs.stat\<close> or \<open>fs.open\<close> throws); the
    file system does not change while one file is processed;
  \<^item> \<open>md5\<close>: the digest, from bytes to its hexadecimal form;
  \<^item> \<open>readdir\<close>: the directory tree under a root (\<open>None\<close>: not a directory, or missing);
  \<^item> \<open>ffprobe\<close>: the result of \<open>getVideoMetadata\<close>, an error message or the metadata;
  \<^item> \<open>mkdir\<close>, \<open>ffmpegThumbnail\<close>, \<open>ffmpegSprite\<close>: the error message of the call, if it
    fails (a missing output file is such a failure);
  \<^item> \<open>assetsRun\<close>: for \<open>generateAllProxyAssets\<close> on an input, the completions and proxy
    progress lines (\<open>out_time_ms\<close>) in the order they arrive before \<open>Promise.all\<close> settles,
    and the first rejection, if any;
  \<^item> \<open>nowISO\<close>, \<open>nowMs\<close>: the clock.

  The program's own state is the record \<open>state\<close>: the three tables, the two module
  variables \<open>currentRootPath\<close> and \<open>isGenerating\<close>, and a log of the external processes
  invoked.
\<close>

record FFmpegMetadata =
  duration_md :: real
  width_md :: nat
  height_md :: nat
  codec :: string
  frameRate :: number
  bitRate :: nat

datatype asset_event = ThumbnailDone | SpriteDone | ProxyOutTime nat | ProxyDone

record world =
  files :: "string \<Rightarrow> file_stat option"
  md5 :: "string \<Rightarrow> string"
  readdir :: "string \<Rightarrow> listing option"
  ffprobe :: "string \<Rightarrow> string + FFmpegMetadata"
  mkdir :: "string \<Rightarrow> string option"
  ffmpegThumbnail :: "string \<Rightarrow> string \<Rightarrow> string option"
  ffmpegSprite :: "string \<Rightarrow> string \<Rightarrow> string option"
  assetsRun :: "string \<Rightarrow> asset_event list \<times> string option"
  nowISO :: string
  nowMs :: nat

datatype job_status = Queued | Processing | Complete | Error

record ProxyJobRow =
  job_id :: string
  video_id :: string
  status :: job_status
  progress :: int
  job_created_at :: string
  started_at :: "string option"
  completed_at :: "string option"
  error :: "string option"

record ProxyJob =
  id_j :: string
  videoId :: string
  status_j :: job_status
  progress_j :: int
  createdAt_j :: string
  error_j :: "string option"

definition rowToProxyJob :: "ProxyJobRow \<Rightarrow> ProxyJob" where
  "rowToProxyJob row =
     \<lparr> id_j = job_id row, videoId = video_id row, status_j = status row,
       progress_j = progress row, createdAt_j = job_created_at row,
       error_j = orNull (error row) \<rparr>"

datatype scan_state = Scanning | ScanComplete | ScanError

record ScanRow =
  scan_id :: string
  root_path :: string
  scan_status :: scan_state
  videos_found :: nat
  scan_started_at :: string
  scan_completed_at :: "string option"

datatype invocation = Probe string | GenThumbnail string | GenSprite string | GenAssets string

record state =
  videos :: "VideoRow list"
  proxy_queue :: "ProxyJobRow list"
  scans :: "ScanRow list"
  currentRootPath :: "string option"
  isGenerating :: bool
  invocations :: "invocation list"

text \<open>\<open>getFileFingerprint\<close>: the digest of \<open>fingerprintInput\<close>, or the I/O error.\<close>

definition fingerprintOf :: "(string \<Rightarrow> string) \<Rightarrow> file_stat \<Rightarrow> string" where
  "fingerprintOf digest f = digest (fingerprintInput f)"

definition getFileFingerprint :: "world \<Rightarrow> string \<Rightarrow> string + string" where
  "getFileFingerprint w filePath' =
     (case files w filePath' of
        None \<Rightarrow> Inl ''ENOENT''
      | Some stats \<Rightarrow> Inr (fingerprintOf (md5 w) stats))"

text \<open>\<open>path.basename\<close> and \<open>path.dirname\<close> of a normalised path.\<close>

definition basename :: "string \<Rightarrow> string" where
  "basename p = (case lastIndexOf CHR ''/'' p of None \<Rightarrow> p | Some i \<Rightarrow> drop (Suc i) p)"

definition dirname :: "string \<Rightarrow> string" where
  "dirname p =
     (case lastIndexOf CHR ''/'' p of
        None \<Rightarrow> ''.''
      | Some i \<Rightarrow> if i = 0 then ''/'' else take i p)"

text \<open>ffmpeg.ts and db.ts: the directories of the derived data and the calls of the external
  tools. \<open>generateSpriteSheet\<close> computes its configuration before it starts the tool.\<close>

definition getDataDir :: "string \<Rightarrow> string" where
  "getDataDir rootPath = path_join rootPath ''.vcb-data''"

definition getProxyDir :: "string \<Rightarrow> string" where
  "getProxyDir rootPath = path_join (getDataDir rootPath) ''proxies''"

definition ensureProxyDir :: "world \<Rightarrow> string \<Rightarrow> string + string" where
  "ensureProxyDir w rootPath =
     (let proxyDir = getProxyDir rootPath
      in case mkdir w proxyDir of Some e \<Rightarrow> Inl e | None \<Rightarrow> Inr proxyDir)"

definition getVideoMetadata :: "world \<Rightarrow> string \<Rightarrow> string + FFmpegMetadata" where
  "getVideoMetadata w filePath' = ffprobe w filePath'"

definition generateThumbnail :: "world \<Rightarrow> string \<Rightarrow> string \<Rightarrow> real \<Rightarrow> string + unit" where
  "generateThumbnail w inputPath outputPath timestamp =
     (case ffmpegThumbnail w inputPath outputPath of Some e \<Rightarrow> Inl e | None \<Rightarrow> Inr ())"

definition generateSpriteSheet :: "world \<Rightarrow> string \<Rightarrow> string \<Rightarrow> real \<Rightarrow> string + SpriteConfig" where
  "generateSpriteSheet w inputPath outputPath duration' =
     (let config = spriteConfig duration'
      in case ffmpegSprite w inputPath outputPath of Some e \<Rightarrow> Inl e | None \<Rightarrow> Inr config)"

definition generateThumbnailOnly ::
  "world \<Rightarrow> string \<Rightarrow> string \<Rightarrow> string \<Rightarrow> real \<Rightarrow> string + string" where
  "generateThumbnailOnly w videoId' inputPath rootPath duration' =
     (case ensureProxyDir w rootPath of
        Inl e \<Rightarrow> Inl e
      | Inr proxyDir \<Rightarrow>
          let thumbnailPath' = path_join proxyDir (videoId' @ ''_thumb.jpg'');
              thumbnailTime = min (duration' * (1 / 10)) 5
          in case generateThumbnail w inputPath thumbnailPath' thumbnailTime of
               Inl e \<Rightarrow> Inl e
             | Inr _ \<Rightarrow> Inr thumbnailPath')"

definition generateSpriteSheetOnly ::
  "world \<Rightarrow> string \<Rightarrow> string \<Rightarrow> string \<Rightarrow> real \<Rightarrow> string + string \<times> SpriteConfig" where
  "generateSpriteSheetOnly w videoId' inputPath rootPath duration' =
     (case ensureProxyDir w rootPath of
        Inl e \<Rightarrow> Inl e
      | Inr proxyDir \<Rightarrow>
          let spritePath' = path_join proxyDir (videoId' @ ''_sprite.jpg'')
          in case generateSpriteSheet w inputPath spritePath' duration' of
               Inl e \<Rightarrow> Inl e
             | Inr spriteConfig' \<Rightarrow> Inr (spritePath', spriteConfig'))"

text \<open>
  \<open>processVideoFile\<close>. \<open>unchanged\<close> is the test
  \<open>existing && existing.fileHash === fingerprint\<close>; \<open>generateAssetsForScan\<close> is the inner
  \<open>try\<close> block around \<open>Promise.all\<close> of the thumbnail and the sprite, whose \<open>catch\<close> only
  logs; every other failure reaches the outer \<open>catch\<close>, which returns no video.
\<close>

definition unchanged :: "Video option \<Rightarrow> string \<Rightarrow> bool" where
  "unchanged existing fingerprint =
     (case existing of None \<Rightarrow> False | Some ex \<Rightarrow> fileHash ex = Some fingerprint)"

definition logged :: "invocation list \<Rightarrow> state \<Rightarrow> state" where
  "logged is s = s\<lparr>invocations := invocations s @ is\<rparr>"

definition generateAssetsForScan ::
  "world \<Rightarrow> Video \<Rightarrow> string \<Rightarrow> string \<Rightarrow> real \<Rightarrow> state \<Rightarrow> state" where
  "generateAssetsForScan w video filePath' rootPath duration' s =
     (let s1 = logged [GenThumbnail filePath', GenSprite filePath'] s
      in case (generateThumbnailOnly w (id_v video) filePath' rootPath duration',
               generateSpriteSheetOnly w (id_v video) filePath' rootPath duration') of
           (Inr thumbnailPath', Inr (spritePath', _)) \<Rightarrow>
             s1\<lparr>videos := updateVideoThumbnailAndSprite (id_v video) thumbnailPath' spritePath'
                    (videos s1)\<rparr>
         | _ \<Rightarrow> s1)"

definition processVideoFile ::
  "world \<Rightarrow> string \<Rightarrow> string \<Rightarrow> bool \<Rightarrow> state \<Rightarrow> (Video option \<times> bool) \<times> state" where
  "processVideoFile w filePath' rootPath generateThumbs s =
     (case getFileFingerprint w filePath' of
        Inl _ \<Rightarrow> ((None, False), s)
      | Inr fingerprint \<Rightarrow>
     (case files w filePath' of
        None \<Rightarrow> ((None, False), s)
      | Some stats \<Rightarrow>
          let fileMtime' = mtimeISO stats;
              existing = getVideoByPath (videos s) filePath'
          in if unchanged existing fingerprint then ((existing, True), s)
             else
              (let s1 = logged [Probe filePath'] s
               in case getVideoMetadata w filePath' of
                    Inl _ \<Rightarrow> ((None, False), s1)
                  | Inr metadata \<Rightarrow>
                      let videoData =
                            \<lparr> filePath = filePath', fileName = basename filePath',
                              fileSize = length (content stats),
                              duration = duration_md metadata,
                              width = Some (width_md metadata),
                              height = Some (height_md metadata),
                              createdAt = birthtimeISO stats,
                              directory = dirname filePath',
                              fileHash = Some fingerprint, fileMtime = Some fileMtime' \<rparr>;
                          inserted = insertVideo (nowISO w) videoData (videos s1);
                          s2 = s1\<lparr>videos := fst inserted\<rparr>
                      in case snd inserted of
                           None \<Rightarrow> ((None, False), s2)
                         | Some video \<Rightarrow>
                             if generateThumbs \<and> duration_md metadata > 0
                             then ((Some video, False),
                                   generateAssetsForScan w video filePath' rootPath
                                     (duration_md metadata) s2)
                             else ((Some video, False), s2))))"

text \<open>The scan sessions table: \<open>createScan\<close>, \<open>updateScanProgress\<close>, \<open>completeScan\<close>.
  The plain \<open>INSERT\<close> of \<open>createScan\<close> fails on a primary key that is already there.\<close>

definition createScan :: "world \<Rightarrow> string \<Rightarrow> ScanRow list \<Rightarrow> string + string \<times> ScanRow list" where
  "createScan w rootPath tbl =
     (let i = generateId (''scan-'' @ rootPath @ ''-'' @ String_nat (nowMs w));
          startedAt = nowISO w
      in if i \<in> set (map scan_id tbl) then Inl ''UNIQUE constraint failed: scans.id''
         else Inr (i, tbl @ [\<lparr> scan_id = i, root_path = rootPath, scan_status = Scanning,
                                 videos_found = 0, scan_started_at = startedAt,
                                 scan_completed_at = None \<rparr>]))"

definition updateScanProgress :: "string \<Rightarrow> nat \<Rightarrow> ScanRow list \<Rightarrow> ScanRow list" where
  "updateScanProgress i videosFound' tbl =
     map (\<lambda>r. if scan_id r = i then r\<lparr>videos_found := videosFound'\<rparr> else r) tbl"

definition completeScan :: "world \<Rightarrow> string \<Rightarrow> nat \<Rightarrow> ScanRow list \<Rightarrow> ScanRow list" where
  "completeScan w i videosFound' tbl =
     map (\<lambda>r. if scan_id r = i
               then r\<lparr>scan_status := ScanComplete, videos_found := videosFound',
                      scan_completed_at := Some (nowISO w)\<rparr>
               else r) tbl"

datatype scan_phase = Counting | Processing_phase

record progress_event =
  phase :: scan_phase
  totalVideos :: nat
  processed :: nat
  skipped :: nat
  currentFile :: string

record scan_run =
  videosFound :: nat
  videosProcessed :: nat
  videosSkipped :: nat
  db :: state
  emitted :: "progress_event list"

text \<open>The closure \<open>processVideo\<close> of \<open>scanAndProcessDirectory\<close>: one unit of the process
  phase, on the counters, the database and the progress events emitted so far.\<close>

definition processVideo :: "world \<Rightarrow> string \<Rightarrow> string \<Rightarrow> nat \<Rightarrow> scan_run \<Rightarrow> string \<Rightarrow> scan_run" where
  "processVideo w rootPath scanId totalVideos' run videoPath =
     (let result = processVideoFile w videoPath rootPath True (db run);
          run1 = (case fst (fst result) of
                    Some _ \<Rightarrow>
                      if snd (fst result)
                      then run\<lparr>videosFound := videosFound run + 1,
                               videosSkipped := videosSkipped run + 1\<rparr>
                      else run\<lparr>videosFound := videosFound run + 1,
                               videosProcessed := videosProcessed run + 1\<rparr>
                  | None \<Rightarrow> run);
          event = \<lparr> phase = Processing_phase, totalVideos = totalVideos',
                    processed = videosProcessed run1, skipped = videosSkipped run1,
                    currentFile = videoPath \<rparr>;
          s1 = snd result
      in run1\<lparr> db := s1\<lparr>scans := updateScanProgress scanId (videosFound run1) (scans s1)\<rparr>,
               emitted := emitted run1 @ [event] \<rparr>)"

text \<open>The events of the count phase: the first one, then one for each path found.\<close>

definition countingEvents :: "string list \<Rightarrow> progress_event list" where
  "countingEvents videoPaths =
     \<lparr> phase = Counting, totalVideos = 0, processed = 0, skipped = 0,
       currentFile = ''Counting videos...'' \<rparr> #
     map (\<lambda>n. \<lparr> phase = Counting, totalVideos = Suc n, processed = 0, skipped = 0,
                 currentFile = videoPaths ! n \<rparr>) [0 ..< length videoPaths]"

text \<open>
  \<open>scanAndProcessDirectory\<close>. \<open>readdir w rootPath = None\<close> stands for a root that
  \<open>fs.stat\<close> rejects or that is not a directory. The units of the process phase run
  under \<open>p-limit\<close>; they are taken here one after the other, in the order of the paths.
\<close>

definition scanAndProcessDirectory :: "world \<Rightarrow> string \<Rightarrow> state \<Rightarrow> string + scan_run \<times> string" where
  "scanAndProcessDirectory w rootPath s =
     (case readdir w rootPath of
        None \<Rightarrow> Inl (''Invalid directory path: '' @ rootPath)
      | Some tree \<Rightarrow>
          let s0 = s\<lparr>currentRootPath := Some rootPath\<rparr>
          in case createScan w rootPath (scans s0) of
               Inl e \<Rightarrow> Inl e
             | Inr (scanId, scans') \<Rightarrow>
                 let s1 = s0\<lparr>scans := scans'\<rparr>;
                     videoPaths = scanDirectory rootPath tree;
                     totalVideos' = length videoPaths;
                     run0 = \<lparr> videosFound = 0, videosProcessed = 0, videosSkipped = 0,
                              db = s1, emitted = countingEvents videoPaths \<rparr>;
                     run1 = foldl (processVideo w rootPath scanId totalVideos') run0 videoPaths;
                     s2 = db run1
                 in Inr (run1\<lparr>db := s2\<lparr>scans := completeScan w scanId (videosFound run1)
                                                   (scans s2)\<rparr>\<rparr>, scanId))"

section \<open>The proxy queue\<close>

text \<open>
  \<open>updateProxyJobStatus\<close> and \<open>getNextQueuedJob\<close> of db.ts. \<open>ORDER BY created_at ASC
  LIMIT 1\<close> compares the ISO strings; among equal ones the first of the table is taken.
\<close>

definition updateProxyJobStatus ::
  "world \<Rightarrow> string \<Rightarrow> job_status \<Rightarrow> int \<Rightarrow> string option \<Rightarrow> ProxyJobRow list \<Rightarrow> ProxyJobRow list" where
  "updateProxyJobStatus w i status' progress' error' tbl =
     map (\<lambda>r. if job_id r = i
               then (if status' = Processing
                     then r\<lparr>status := status', progress := progress',
                            started_at := Some (nowISO w)\<rparr>
                     else if status' = Complete \<or> status' = Error
                     then r\<lparr>status := status', progress := progress',
                            completed_at := Some (nowISO w), error := orNull error'\<rparr>
                     else r\<lparr>status := status', progress := progress'\<rparr>)
               else r) tbl"

definition getNextQueuedJob :: "ProxyJobRow list \<Rightarrow> ProxyJob option" where
  "getNextQueuedJob tbl =
     (case sort_key job_created_at (filter (\<lambda>r. status r = Queued) tbl) of
        [] \<Rightarrow> None
      | row # _ \<Rightarrow> Some (rowToProxyJob row))"

text \<open>
  \<open>generateAllProxyAssets\<close>: the calls of \<open>onProgress\<close> (stage and progress) in the order
  they are made, and the result. \<open>proxyPercent\<close> is the percentage that \<open>generateProxy\<close>
  reports for a progress line; it reports none when the duration is not positive.
\<close>

record asset_paths =
  proxyPath_a :: string
  spritePath_a :: string
  thumbnailPath_a :: string
  spriteConfig_a :: SpriteConfig

definition proxyPercent :: "nat \<Rightarrow> real \<Rightarrow> real" where
  "proxyPercent out_time_ms totalDuration =
     (let currentTime = real out_time_ms / 1000000;
          progress' = min ((currentTime / totalDuration) * 100) 100
      in real_of_int (Math_round progress'))"

definition progressCall :: "world \<Rightarrow> string \<Rightarrow> asset_event \<Rightarrow> (string \<times> real) list" where
  "progressCall w inputPath ev =
     (case ev of
        ThumbnailDone \<Rightarrow> [(''thumbnail'', 100)]
      | SpriteDone \<Rightarrow> [(''sprite'', 100)]
      | ProxyOutTime t \<Rightarrow>
          (case getVideoMetadata w inputPath of
             Inl _ \<Rightarrow> []
           | Inr metadata \<Rightarrow>
               let totalDuration = duration_md metadata
               in if totalDuration > 0 then [(''proxy'', proxyPercent t totalDuration)] else [])
      | ProxyDone \<Rightarrow> [(''proxy'', 100)])"

definition generateAllProxyAssets ::
  "world \<Rightarrow> string \<Rightarrow> string \<Rightarrow> string \<Rightarrow> real \<Rightarrow> (string \<times> real) list \<times> (string + asset_paths)" where
  "generateAllProxyAssets w videoId' inputPath rootPath duration' =
     (case ensureProxyDir w rootPath of
        Inl e \<Rightarrow> ([], Inl e)
      | Inr proxyDir \<Rightarrow>
          let proxyPath' = path_join proxyDir (videoId' @ ''_proxy.mp4'');
              spritePath' = path_join proxyDir (videoId' @ ''_sprite.jpg'');
              thumbnailPath' = path_join proxyDir (videoId' @ ''_thumb.jpg'');
              thumbnailTime = min (duration' * (1 / 10)) 5;
              run = assetsRun w inputPath;
              calls = (''all'', 0) # concat (map (progressCall w inputPath) (fst run))
          in (calls,
              case snd run of
                Some e \<Rightarrow> Inl e
              | None \<Rightarrow> Inr \<lparr> proxyPath_a = proxyPath', spritePath_a = spritePath',
                               thumbnailPath_a = thumbnailPath',
                               spriteConfig_a = spriteConfig duration' \<rparr>))"

text \<open>
  The progress callback of \<open>processQueue\<close>: the three variables of the \<open>try\<close> block, their
  update by one call, the weighted sum and the write to the job's row.
\<close>

record tracker =
  thumbnailDone :: bool
  spriteDone :: bool
  proxyProgress :: real

definition tracker0 :: tracker where
  "tracker0 = \<lparr> thumbnailDone = False, spriteDone = False, proxyProgress = 0 \<rparr>"

definition track :: "string \<times> real \<Rightarrow> tracker \<Rightarrow> tracker" where
  "track call t =
     (case call of (stage, progress') \<Rightarrow>
        if stage = ''thumbnail'' \<and> progress' = 100 then t\<lparr>thumbnailDone := True\<rparr>
        else if stage = ''sprite'' \<and> progress' = 100 then t\<lparr>spriteDone := True\<rparr>
        else if stage = ''proxy'' then t\<lparr>proxyProgress := progress'\<rparr>
        else t)"

definition overallProgress :: "tracker \<Rightarrow> real" where
  "overallProgress t =
     (if thumbnailDone t then 5 else 0) + (if spriteDone t then 15 else 0)
       + (proxyProgress t * (8 / 10))"

definition onProgress ::
  "world \<Rightarrow> string \<Rightarrow> tracker \<times> ProxyJobRow list \<Rightarrow> string \<times> real \<Rightarrow> tracker \<times> ProxyJobRow list" where
  "onProgress w jobId st call =
     (let t = track call (fst st)
      in (t, updateProxyJobStatus w jobId Processing (Math_round (overallProgress t)) None (snd st)))"

text \<open>\<open>String(error)\<close> for an \<open>Error\<close> object with the given message.\<close>

definition String_error :: "string \<Rightarrow> string" where
  "String_error message = ''Error: '' @ message"

text \<open>
  One iteration of the \<open>while\<close> loop of \<open>processQueue\<close>, for the job just fetched. The
  callbacks of the job are taken to arrive while the job is awaited.
\<close>

definition processJob :: "world \<Rightarrow> string \<Rightarrow> ProxyJob \<Rightarrow> state \<Rightarrow> state" where
  "processJob w rootPath job s =
     (let q1 = updateProxyJobStatus w (id_j job) Processing 0 None (proxy_queue s)
      in case getVideoById (videos s) (videoId job) of
           None \<Rightarrow>
             s\<lparr>proxy_queue := updateProxyJobStatus w (id_j job) Error 0 (Some ''Video not found'') q1\<rparr>
         | Some video \<Rightarrow>
             let s1 = logged [GenAssets (filePath video)] (s\<lparr>proxy_queue := q1\<rparr>);
                 run = generateAllProxyAssets w (id_v video) (filePath video) rootPath
                         (duration video);
                 q2 = snd (foldl (onProgress w (id_j job)) (tracker0, q1) (fst run))
             in case snd run of
                  Inr result \<Rightarrow>
                    s1\<lparr>videos := updateVideoProxy (id_v video) (proxyPath_a result)
                           (spritePath_a result) (thumbnailPath_a result) (videos s1),
                        proxy_queue := updateProxyJobStatus w (id_j job) Complete 100 None q2\<rparr>
                | Inl e \<Rightarrow>
                    s1\<lparr>proxy_queue :=
                          updateProxyJobStatus w (id_j job) Error 0 (Some (String_error e)) q2\<rparr>)"

text \<open>Towards the termination of the loop: an iteration rewrites the rows of its job, and
  only them, to a status other than \<open>queued\<close>.\<close>

definition upd :: "string \<Rightarrow> (ProxyJobRow \<Rightarrow> ProxyJobRow) \<Rightarrow> ProxyJobRow list \<Rightarrow> ProxyJobRow list" where
  "upd i F tbl = map (\<lambda>r. if job_id r = i then F r else r) tbl"

definition keeps :: "(ProxyJobRow \<Rightarrow> ProxyJobRow) \<Rightarrow> bool" where
  "keeps F = (\<forall>r. job_id (F r) = job_id r \<and> job_created_at (F r) = job_created_at r
      \<and> video_id (F r) = video_id r)"

lemma upd_upd: "keeps F \<Longrightarrow> upd i G (upd i F tbl) = upd i (G \<circ> F) tbl"
  by (simp add: upd_def keeps_def)

lemma keeps_comp: "keeps F \<Longrightarrow> keeps G \<Longrightarrow> keeps (G \<circ> F)"
  by (simp add: keeps_def)

lemma updateProxyJobStatus_upd:
  "\<exists>F. keeps F \<and> (\<forall>r. status (F r) = st \<and> progress (F r) = p
        \<and> (st = Complete \<or> st = Error \<longrightarrow> error (F r) = orNull e))
     \<and> (\<forall>tbl. updateProxyJobStatus w i st p e tbl = upd i F tbl)"
  unfolding updateProxyJobStatus_def upd_def keeps_def
  by (rule exI [of _ "\<lambda>r. if st = Processing
                     then r\<lparr>status := st, progress := p, started_at := Some (nowISO w)\<rparr>
                     else if st = Complete \<or> st = Error
                     then r\<lparr>status := st, progress := p,
                            completed_at := Some (nowISO w), error := orNull e\<rparr>
                     else r\<lparr>status := st, progress := p\<rparr>"]) auto

lemma foldl_onProgress_upd:
  "\<exists>G. keeps G \<and> snd (foldl (onProgress w i) (t, q) calls) = upd i G q"
proof (induction calls arbitrary: t q)
  case Nil
  have "keeps (\<lambda>r. r)" by (simp add: keeps_def)
  moreover have "q = upd i (\<lambda>r. r) q" by (simp add: upd_def)
  ultimately show ?case by auto
next
  case (Cons c cs)
  obtain F where F: "keeps F"
    "\<And>tbl. updateProxyJobStatus w i Processing (Math_round (overallProgress (track c t))) None tbl = upd i F tbl"
    using updateProxyJobStatus_upd [of Processing "Math_round (overallProgress (track c t))" None w i]
    by blast
  have step: "onProgress w i (t, q) c = (track c t, upd i F q)"
    by (simp add: onProgress_def Let_def F(2))
  from Cons.IH [of "track c t" "upd i F q"]
  obtain G where G: "keeps G"
    "snd (foldl (onProgress w i) (track c t, upd i F q) cs) = upd i G (upd i F q)"
    by blast
  have "snd (foldl (onProgress w i) (t, q) (c # cs)) = upd i (G \<circ> F) q"
    using G(2) F(1) by (simp add: step upd_upd)
  moreover have "keeps (G \<circ> F)"
    using F(1) G(1) by (rule keeps_comp)
  ultimately show ?case by blast
qed

lemma String_error_nonempty [simp]: "String_error e \<noteq> []"
  by (simp add: String_error_def)

lemma orNull_String_error [simp]: "orNull (Some (String_error e)) = Some (String_error e)"
  by (simp add: orNull_def)

text \<open>How the iteration for a job ends, from the videos table: the error detail stored with
  the job, or \<open>None\<close> when its assets are generated.\<close>

definition jobFailure :: "world \<Rightarrow> string \<Rightarrow> VideoRow list \<Rightarrow> ProxyJob \<Rightarrow> string option" where
  "jobFailure w rootPath vids job =
     (case getVideoById vids (videoId job) of
        None \<Rightarrow> Some ''Video not found''
      | Some video \<Rightarrow>
          (case snd (generateAllProxyAssets w (id_v video) (filePath video) rootPath (duration video)) of
             Inl e \<Rightarrow> Some (String_error e)
           | Inr _ \<Rightarrow> None))"

lemma processJob_upd:
  "\<exists>F. keeps F
     \<and> (\<forall>r. status (F r) = (if jobFailure w rootPath (videos s) job = None then Complete else Error)
            \<and> error (F r) = jobFailure w rootPath (videos s) job
            \<and> progress (F r) = (if jobFailure w rootPath (videos s) job = None then 100 else 0))
     \<and> proxy_queue (processJob w rootPath job s) = upd (id_j job) F (proxy_queue s)"
proof -
  let ?i = "id_j job" and ?q = "proxy_queue s"
  obtain F1 where F1: "keeps F1"
    "\<And>tbl. updateProxyJobStatus w ?i Processing 0 None tbl = upd ?i F1 tbl"
    using updateProxyJobStatus_upd [of Processing 0 None w ?i] by blast
  show ?thesis
  proof (cases "getVideoById (videos s) (videoId job)")
    case None
    obtain F2 where F2: "keeps F2"
      "\<And>r. status (F2 r) = Error \<and> progress (F2 r) = 0 \<and> error (F2 r) = orNull (Some ''Video not found'')"
      "\<And>tbl. updateProxyJobStatus w ?i Error 0 (Some ''Video not found'') tbl = upd ?i F2 tbl"
      using updateProxyJobStatus_upd [of Error 0 "Some ''Video not found''" w ?i] by auto
    have q: "proxy_queue (processJob w rootPath job s) = upd ?i (F2 \<circ> F1) ?q"
      using None F1 by (simp add: processJob_def Let_def F2(3) upd_upd)
    have f: "jobFailure w rootPath (videos s) job = Some ''Video not found''"
      using None by (simp add: jobFailure_def)
    have "keeps (F2 \<circ> F1)" using F1(1) F2(1) by (rule keeps_comp)
    with q f F2(2) show ?thesis
      by (intro exI [of _ "F2 \<circ> F1"]) (simp add: orNull_def)
  next
    case (Some video)
    let ?run = "generateAllProxyAssets w (id_v video) (filePath video) rootPath (duration video)"
    let ?t0 = "tracker0"
    obtain G where G: "keeps G"
      "snd (foldl (onProgress w ?i) (?t0, upd ?i F1 ?q) (fst ?run)) = upd ?i G (upd ?i F1 ?q)"
      using foldl_onProgress_upd [of w ?i ?t0 "upd ?i F1 ?q" "fst ?run"] by blast
    have kGF: "keeps (G \<circ> F1)" using F1(1) G(1) by (rule keeps_comp)
    show ?thesis
    proof (cases "snd ?run")
      case (Inl e)
      obtain F3 where F3: "keeps F3"
        "\<And>r. status (F3 r) = Error \<and> progress (F3 r) = 0 \<and> error (F3 r) = orNull (Some (String_error e))"
        "\<And>tbl. updateProxyJobStatus w ?i Error 0 (Some (String_error e)) tbl = upd ?i F3 tbl"
        using updateProxyJobStatus_upd [of Error 0 "Some (String_error e)" w ?i] by auto
      have q: "proxy_queue (processJob w rootPath job s) = upd ?i (F3 \<circ> (G \<circ> F1)) ?q"
        using Some Inl F1 G kGF
        by (simp add: processJob_def Let_def F3(3) upd_upd logged_def)
      have f: "jobFailure w rootPath (videos s) job = Some (String_error e)"
        using Some Inl by (simp add: jobFailure_def)
      have "keeps (F3 \<circ> (G \<circ> F1))" using kGF F3(1) by (rule keeps_comp)
      with q f F3(2) show ?thesis
        by (intro exI [of _ "F3 \<circ> (G \<circ> F1)"]) (simp add: orNull_def)
    next
      case (Inr result)
      obtain F3 where F3: "keeps F3"
        "\<And>r. status (F3 r) = Complete \<and> progress (F3 r) = 100 \<and> error (F3 r) = orNull None"
        "\<And>tbl. updateProxyJobStatus w ?i Complete 100 None tbl = upd ?i F3 tbl"
        using updateProxyJobStatus_upd [of Complete 100 None w ?i] by auto
      have q: "proxy_queue (processJob w rootPath job s) = upd ?i (F3 \<circ> (G \<circ> F1)) ?q"
        using Some Inr F1 G kGF
        by (simp add: processJob_def Let_def F3(3) upd_upd logged_def)
      have f: "jobFailure w rootPath (videos s) job = None"
        using Some Inr by (simp add: jobFailure_def)
      have "keeps (F3 \<circ> (G \<circ> F1))" using kGF F3(1) by (rule keeps_comp)
      with q f F3(2) show ?thesis
        by (intro exI [of _ "F3 \<circ> (G \<circ> F1)"]) (simp add: orNull_def)
    qed
  qed
qed

lemma filter_queued_upd:
  assumes "\<And>r. status (F r) \<noteq> Queued"
  shows "filter (\<lambda>r. status r = Queued) (upd i F tbl) =
    filter (\<lambda>r. job_id r \<noteq> i) (filter (\<lambda>r. status r = Queued) tbl)"
  using assms by (induction tbl) (auto simp: upd_def)

lemma getNextQueuedJob_Some:
  assumes "getNextQueuedJob tbl = Some job"
  obtains row where "row \<in> set tbl" "status row = Queued" "job = rowToProxyJob row"
    "\<And>r. r \<in> set tbl \<Longrightarrow> status r = Queued \<Longrightarrow> job_created_at row \<le> job_created_at r"
proof -
  let ?qs = "filter (\<lambda>r. status r = Queued) tbl"
  from assms obtain row rest where srt: "sort_key job_created_at ?qs = row # rest"
    and job: "job = rowToProxyJob row"
    by (auto simp: getNextQueuedJob_def split: list.splits)
  have "set (sort_key job_created_at ?qs) = set ?qs" by simp
  with srt have mem: "row \<in> set ?qs" and sub: "set rest \<subseteq> set ?qs"
    and all: "set ?qs = insert row (set rest)" by auto
  have "sorted (map job_created_at (sort_key job_created_at ?qs))" by (rule sorted_sort_key)
  with srt have le: "\<And>r. r \<in> set rest \<Longrightarrow> job_created_at row \<le> job_created_at r"
    by auto
  show thesis
  proof (rule that [of row])
    show "row \<in> set tbl" "status row = Queued" using mem by auto
    show "job = rowToProxyJob row" by (rule job)
    fix r assume "r \<in> set tbl" "status r = Queued"
    then have "r \<in> set ?qs" by simp
    with all have "r = row \<or> r \<in> set rest" by auto
    then show "job_created_at row \<le> job_created_at r" using le by auto
  qed
qed

lemma sort_key_Nil_iff: "sort_key f xs = [] \<longleftrightarrow> xs = []"
proof
  assume "sort_key f xs = []"
  then have "length (sort_key f xs) = 0" by simp
  then show "xs = []" by simp
qed simp

lemma getNextQueuedJob_None:
  "getNextQueuedJob tbl = None \<longleftrightarrow> filter (\<lambda>r. status r = Queued) tbl = []"
proof (cases "sort_key job_created_at (filter (\<lambda>r. status r = Queued) tbl)")
  case Nil
  then show ?thesis
    using sort_key_Nil_iff [of job_created_at "filter (\<lambda>r. status r = Queued) tbl"]
    by (simp add: getNextQueuedJob_def)
next
  case (Cons row rest)
  then have "filter (\<lambda>r. status r = Queued) tbl \<noteq> []"
    using sort_key_Nil_iff [of job_created_at "filter (\<lambda>r. status r = Queued) tbl"]
    by simp
  with Cons show ?thesis
    by (simp add: getNextQueuedJob_def)
qed

lemma id_j_rowToProxyJob [simp]: "id_j (rowToProxyJob row) = job_id row"
  "createdAt_j (rowToProxyJob row) = job_created_at row"
  by (simp_all add: rowToProxyJob_def)

lemma processJob_decreases:
  assumes "getNextQueuedJob (proxy_queue s) = Some job"
  shows "length (filter (\<lambda>r. status r = Queued) (proxy_queue (processJob w rootPath job s)))
    < length (filter (\<lambda>r. status r = Queued) (proxy_queue s))"
proof -
  from assms obtain row where row: "row \<in> set (proxy_queue s)" "status row = Queued"
    "job = rowToProxyJob row"
    by (rule getNextQueuedJob_Some)
  obtain F where Fs: "\<And>r. status (F r) =
        (if jobFailure w rootPath (videos s) job = None then Complete else Error)"
    and Fq: "proxy_queue (processJob w rootPath job s) = upd (id_j job) F (proxy_queue s)"
    using processJob_upd [of w rootPath s job] by blast
  have F: "\<And>r. status (F r) \<noteq> Queued"
    "proxy_queue (processJob w rootPath job s) = upd (id_j job) F (proxy_queue s)"
    using Fq by (simp_all add: Fs)
  have "row \<in> set (filter (\<lambda>r. status r = Queued) (proxy_queue s))"
    using row by simp
  moreover have "\<not> job_id row \<noteq> id_j job" using row(3) by simp
  ultimately have "length (filter (\<lambda>r. job_id r \<noteq> id_j job)
      (filter (\<lambda>r. status r = Queued) (proxy_queue s)))
    < length (filter (\<lambda>r. status r = Queued) (proxy_queue s))"
    by (rule length_filter_less)
  then show ?thesis
    by (simp only: F(2) filter_queued_upd [of F, OF F(1)])
qed

text \<open>The \<open>while (job)\<close> loop, with the jobs it claims in order; each iteration takes one
  row out of the queued ones.\<close>

function drain :: "world \<Rightarrow> string \<Rightarrow> state \<Rightarrow> state \<times> ProxyJob list" where
  "drain w rootPath s =
     (case getNextQueuedJob (proxy_queue s) of
        None \<Rightarrow> (s, [])
      | Some job \<Rightarrow>
          (case drain w rootPath (processJob w rootPath job s) of
             (s', jobs) \<Rightarrow> (s', job # jobs)))"
  by pat_completeness auto
termination
  by (relation "measure (\<lambda>(w, rootPath, s). length (filter (\<lambda>r. status r = Queued) (proxy_queue s)))")
     (auto simp: processJob_decreases)

declare drain.simps [simp del]

definition processQueue :: "world \<Rightarrow> state \<Rightarrow> state \<times> ProxyJob list" where
  "processQueue w s =
     (if isGenerating s then (s, [])
      else case currentRootPath s of
             None \<Rightarrow> (s, [])
           | Some rootPath \<Rightarrow>
               if rootPath = [] then (s, [])
               else (case drain w rootPath (s\<lparr>isGenerating := True\<rparr>) of
                       (s', jobs) \<Rightarrow> (s'\<lparr>isGenerating := False\<rparr>, jobs)))"

section \<open>Fingerprint inputs\<close>

text \<open>The decimal digits determine the number, and a larger number has no fewer digits.\<close>

definition digits_val :: "string \<Rightarrow> nat" where
  "digits_val s = foldl (\<lambda>a c. 10 * a + (of_char c - 48)) 0 s"

lemma digits_val_snoc: "digits_val (s @ [c]) = 10 * digits_val s + (of_char c - 48)"
  by (simp add: digits_val_def)

lemma of_char_digit10: "d < 10 \<Longrightarrow> of_char (digit10 d) - 48 = (d::nat)"
proof -
  assume "d < 10"
  then consider "d = 0" | "d = 1" | "d = 2" | "d = 3" | "d = 4" | "d = 5" | "d = 6"
    | "d = 7" | "d = 8" | "d = 9"
    by atomize_elim arith
  then show ?thesis
    by cases (simp_all add: digit10_def)
qed

lemma digits_val_String_nat: "digits_val (String_nat n) = n"
proof (induction n rule: String_nat.induct)
  case (1 n)
  show ?case
  proof (cases "n < 10")
    case True
    then show ?thesis
      by (subst String_nat.simps) (simp add: digits_val_def of_char_digit10)
  next
    case False
    with 1 have "digits_val (String_nat (n div 10)) = n div 10" by simp
    with False show ?thesis
      by (subst String_nat.simps) (simp add: digits_val_snoc of_char_digit10)
  qed
qed

lemma String_nat_inj: "String_nat m = String_nat n \<Longrightarrow> m = n"
  by (metis digits_val_String_nat)

lemma length_String_nat_mono: "m \<le> n \<Longrightarrow> length (String_nat m) \<le> length (String_nat n)"
proof (induction n arbitrary: m rule: String_nat.induct)
  case (1 n)
  show ?case
  proof (cases "n < 10")
    case True
    with 1(2) have "m < 10" by simp
    with True show ?thesis
      by (simp add: String_nat.simps [of m] String_nat.simps [of n])
  next
    case False
    show ?thesis
    proof (cases "m < 10")
      case True
      with False show ?thesis
        by (simp add: String_nat.simps [of m] String_nat.simps [of n])
    next
      case mbig: False
      from 1(2) have "m div 10 \<le> n div 10" by (rule div_le_mono)
      with 1(1) False have "length (String_nat (m div 10)) \<le> length (String_nat (n div 10))"
        by simp
      with False mbig show ?thesis
        by (simp add: String_nat.simps [of m] String_nat.simps [of n])
    qed
  qed
qed

lemma prefix_size_eq:
  fixes c1 c2 :: string
  assumes eq: "take K c1 @ String_nat (length c1) = take K c2 @ String_nat (length c2)"
  shows "length c1 = length c2"
proof (rule ccontr)
  assume ne: "length c1 \<noteq> length c2"
  have sym: "length a < length b \<Longrightarrow>
      take K a @ String_nat (length a) = take K b @ String_nat (length b) \<Longrightarrow> False"
    for a b :: string
  proof -
    assume lt: "length a < length b"
      and e: "take K a @ String_nat (length a) = take K b @ String_nat (length b)"
    from e have "length (take K a @ String_nat (length a)) = length (take K b @ String_nat (length b))"
      by simp
    then have len: "min (length a) K + length (String_nat (length a)) =
        min (length b) K + length (String_nat (length b))"
      by simp
    have d: "length (String_nat (length a)) \<le> length (String_nat (length b))"
      using lt by (intro length_String_nat_mono) simp
    have m: "min (length a) K \<le> min (length b) K"
      using lt by simp
    from len d m have meq: "min (length a) K = min (length b) K" by linarith
    then have "length (take K a) = length (take K b)" by simp
    with e have "String_nat (length a) = String_nat (length b)" by simp
    then have "length a = length b" by (rule String_nat_inj)
    with lt show False by simp
  qed
  from ne consider "length c1 < length c2" | "length c2 < length c1" by linarith
  then show False
  proof cases
    case 1
    then show False using sym [of c1 c2] eq by simp
  next
    case 2
    then show False using sym [of c2 c1] eq by simp
  qed
qed

lemma fingerprintInput_inj:
  assumes len: "length (mtimeISO f1) = length (mtimeISO f2)"
    and eq: "fingerprintInput f1 = fingerprintInput f2"
  shows "take 65536 (content f1) = take 65536 (content f2)
    \<and> length (content f1) = length (content f2) \<and> mtimeISO f1 = mtimeISO f2"
proof -
  from eq have e: "(take 65536 (content f1) @ String_nat (length (content f1))) @ mtimeISO f1 =
      (take 65536 (content f2) @ String_nat (length (content f2))) @ mtimeISO f2"
    by (simp add: fingerprintInput_def Let_def)
  with len have a: "take 65536 (content f1) @ String_nat (length (content f1)) =
      take 65536 (content f2) @ String_nat (length (content f2))" and m: "mtimeISO f1 = mtimeISO f2"
    by (auto simp del: append_assoc)
  from a have s: "length (content f1) = length (content f2)"
    by (rule prefix_size_eq)
  with a have "take 65536 (content f1) = take 65536 (content f2)"
    by simp
  with s m show ?thesis by simp
qed

text \<open>A four-byte file last modified in the year 272024 and a seven-byte file last modified
  in 2024.\<close>

definition fileA :: file_stat where
  "fileA = \<lparr> content = ''abcd'', mtimeISO = ''+272024-06-01T12:00:00.000Z'', birthtimeISO = ''2024-06-01T12:00:00.000Z'' \<rparr>"
definition fileB :: file_stat where
  "fileB = \<lparr> content = ''abcd4+2'', mtimeISO = ''2024-06-01T12:00:00.000Z'', birthtimeISO = ''2024-06-01T12:00:00.000Z'' \<rparr>"

lemma String_nat_digit: "n < 10 \<Longrightarrow> String_nat n = [digit10 n]"
  by (simp add: String_nat.simps)

lemma fingerprintInput_fileA_fileB: "fingerprintInput fileA = fingerprintInput fileB"
  by (simp add: fingerprintInput_def fileA_def fileB_def String_nat_digit digit10_def)

text \<open>
  C7. The token is the digest of the first \<open>min size 65536\<close> bytes of the file, its decimal
  size and its ISO timestamp, concatenated without separators. Equal prefix, size and
  timestamp give the equal token, whatever lies past the first 65536 bytes. When the two
  timestamps have the same length (all of the years 0000 to 9999), or when prefix and size
  are unchanged, a change of any of the three inputs changes the bytes that are digested.
\<close>

theorem fingerprint_inputs:
  assumes "length (mtimeISO f1) = length (mtimeISO f2)
    \<or> (take 65536 (content f1) = take 65536 (content f2) \<and> length (content f1) = length (content f2))"
  shows "(take 65536 (content f1) = take 65536 (content f2)
        \<and> length (content f1) = length (content f2) \<and> mtimeISO f1 = mtimeISO f2
        \<longrightarrow> fingerprintOf digest f1 = fingerprintOf digest f2)
    \<and> (fingerprintInput f1 = fingerprintInput f2
        \<longrightarrow> take 65536 (content f1) = take 65536 (content f2)
          \<and> length (content f1) = length (content f2) \<and> mtimeISO f1 = mtimeISO f2)"
proof -
  have det: "fingerprintOf digest f1 = fingerprintOf digest f2"
    if "take 65536 (content f1) = take 65536 (content f2)
      \<and> length (content f1) = length (content f2) \<and> mtimeISO f1 = mtimeISO f2"
    using that by (simp add: fingerprintOf_def fingerprintInput_def Let_def)
  have inj: "take 65536 (content f1) = take 65536 (content f2)
      \<and> length (content f1) = length (content f2) \<and> mtimeISO f1 = mtimeISO f2"
    if eq: "fingerprintInput f1 = fingerprintInput f2"
    using assms
  proof
    assume "length (mtimeISO f1) = length (mtimeISO f2)"
    then show ?thesis using eq by (rule fingerprintInput_inj)
  next
    assume same: "take 65536 (content f1) = take 65536 (content f2)
      \<and> length (content f1) = length (content f2)"
    with eq have "mtimeISO f1 = mtimeISO f2"
      by (simp add: fingerprintInput_def Let_def)
    with same show ?thesis by simp
  qed
  from det inj show ?thesis by blast
qed

text \<open>Two files that differ in one byte.\<close>

definition fileC :: file_stat where
  "fileC = \<lparr> content = ''abcd'', mtimeISO = ''2024-06-01T12:00:00.000Z'',
             birthtimeISO = ''2024-06-01T12:00:00.000Z'' \<rparr>"

definition fileD :: file_stat where
  "fileD = \<lparr> content = ''abcD'', mtimeISO = ''2024-06-01T12:00:00.000Z'',
             birthtimeISO = ''2024-06-01T12:00:00.000Z'' \<rparr>"

theorem fingerprint_inputs_witness:
  "length (mtimeISO fileC) = length (mtimeISO fileD)
   \<and> take 65536 (content fileC) \<noteq> take 65536 (content fileD)
   \<and> fingerprintInput fileC \<noteq> fingerprintInput fileD"
  using fingerprint_inputs [of fileC fileD]
  by (auto simp: fileC_def fileD_def)

text \<open>
  Without the condition on the timestamps the three inputs do not determine the digested
  bytes: a four-byte file last modified in the year 272024 and a seven-byte file last
  modified in 2024 are digested as the same byte string.
\<close>

theorem fingerprint_input_collision:
  "fingerprintInput fileA = fingerprintInput fileB
   \<and> take 65536 (content fileA) \<noteq> take 65536 (content fileB)
   \<and> length (content fileA) \<noteq> length (content fileB)
   \<and> mtimeISO fileA \<noteq> mtimeISO fileB
   \<and> fingerprintOf (\<lambda>bytes. bytes) fileA = fingerprintOf (\<lambda>bytes. bytes) fileB"
  using fingerprintInput_fileA_fileB by (simp add: fileA_def fileB_def fingerprintOf_def)

section \<open>The walk against its specification\<close>

lemma shouldSkipPath_spec: "shouldSkipPath c \<longleftrightarrow> hiddenName c \<or> c \<in> set DENY_LIST"
  by (cases c) (auto simp: shouldSkipPath_def hiddenName_def DENY_LIST_def startsWith_def)

lemma toLowerCase_exts: "map toLowerCase VIDEO_EXTENSIONS = VIDEO_EXTENSIONS"
  by (simp add: VIDEO_EXTENSIONS_def toLowerCase_def lowerChar_def)

lemma isVideoFile_spec: "isVideoFile n \<longleftrightarrow> hasVideoExtension n"
proof -
  have "hasVideoExtension n \<longleftrightarrow> toLowerCase (extname n) \<in> set (map toLowerCase VIDEO_EXTENSIONS)"
    by (auto simp: hasVideoExtension_def list_ex_iff)
  then show ?thesis
    by (simp add: isVideoFile_def toLowerCase_exts)
qed

lemma allFiles_nonempty:
  "[] \<notin> set (allFiles l)" "[] \<notin> set (allFilesIn es)"
  by (induction l and es rule: allFiles_allFilesIn.induct) auto

lemma eligible_Cons:
  "p \<noteq> [] \<Longrightarrow> eligible (n # p) \<longleftrightarrow> \<not> shouldSkipPath n \<and> eligible p"
  by (auto simp: eligible_def shouldSkipPath_spec)

lemma eligible_single: "eligible [n] \<longleftrightarrow> \<not> shouldSkipPath n \<and> isVideoFile n"
  by (auto simp: eligible_def shouldSkipPath_spec isVideoFile_spec)

lemma filter_eligible_map_Cons:
  assumes "[] \<notin> set ps"
  shows "filter eligible (map ((#) n) ps) =
    (if shouldSkipPath n then [] else map ((#) n) (filter eligible ps))"
  using assms by (induction ps) (auto simp: eligible_Cons)

lemma joinAll_Cons: "joinAll r (n # p) = joinAll (path_join r n) p"
  by (simp add: joinAll_def)

lemma map_joinAll_Cons: "map (joinAll r) (map ((#) n) ps) = map (joinAll (path_join r n)) ps"
  by (simp add: joinAll_Cons)

lemma walk_refines:
  "scanDirectory r l = map (joinAll r) (filter eligible (allFiles l))"
  "scanEntries r es = map (joinAll r) (filter eligible (allFilesIn es))"
proof (induction r l and r es rule: scanDirectory_scanEntries.induct)
  case (4 rootPath entry rest)
  show ?case
  proof (cases entry)
    case (RegularFile n)
    with 4 show ?thesis
      by (simp add: eligible_single joinAll_def)
  next
    case (Directory n sub)
    with 4 show ?thesis
      by (simp add: filter_eligible_map_Cons allFiles_nonempty map_joinAll_Cons del: map_map)
  next
    case (OtherEntry n)
    with 4 show ?thesis by simp
  qed
qed simp_all

text \<open>
  C8. The walk yields exactly the regular files of the tree, at any depth, whose extension
  is in the allow-list up to case and none of whose path components below the root is
  hidden or deny-listed, in depth-first order.
\<close>

theorem walk_yields_exactly_eligible_files:
  "scanDirectory rootPath tree = map (joinAll rootPath) (filter eligible (allFiles tree))"
  by (rule walk_refines(1))

text \<open>A tree with a hidden directory, a deny-listed one, an unreadable one and a link.\<close>

definition demoTree :: listing where
  "demoTree = Entries
     [RegularFile ''a.MP4'',
      Directory ''.hid'' (Entries [RegularFile ''b.mp4'']),
      Directory ''d'' (Entries
        [RegularFile ''c.mkv'', RegularFile ''notes.txt'',
         Directory ''node_modules'' (Entries [RegularFile ''x.mov'']),
         Directory ''e'' ReadError,
         Directory ''f'' (Entries [RegularFile ''.g.mp4'', RegularFile ''h.WebM''])]),
      OtherEntry ''l.mp4'']"

theorem walk_yields_exactly_eligible_files_witness:
  "map (joinAll ''/v'') (filter eligible (allFiles demoTree)) =
     [''/v/a.MP4'', ''/v/d/c.mkv'', ''/v/d/f/h.WebM'']"
proof -
  have "scanDirectory ''/v'' demoTree = [''/v/a.MP4'', ''/v/d/c.mkv'', ''/v/d/f/h.WebM'']"
    by (simp add: demoTree_def shouldSkipPath_def startsWith_def isVideoFile_def extname_def
        toLowerCase_def lowerChar_def VIDEO_EXTENSIONS_def path_join_def)
  then show ?thesis
    using walk_yields_exactly_eligible_files [of "''/v''" demoTree] by simp
qed

section \<open>Processing one file\<close>

lemma find_append_None: "find P xs = None \<Longrightarrow> find P (xs @ ys) = find P ys"
  by (induction xs) (auto split: if_splits)

lemma find_insertOrReplace_id:
  "find (\<lambda>r. id_col r = id_col new) (insertOrReplace new tbl) = Some new"
proof -
  have "find (\<lambda>r. id_col r = id_col new)
      (filter (\<lambda>r. id_col r \<noteq> id_col new \<and> file_path r \<noteq> file_path new) tbl) = None"
    by (auto simp: find_None_iff)
  then show ?thesis
    by (simp add: insertOrReplace_def find_append_None)
qed

lemma find_insertOrReplace_path:
  "find (\<lambda>r. file_path r = file_path new) (insertOrReplace new tbl) = Some new"
proof -
  have "find (\<lambda>r. file_path r = file_path new)
      (filter (\<lambda>r. id_col r \<noteq> id_col new \<and> file_path r \<noteq> file_path new) tbl) = None"
    by (auto simp: find_None_iff)
  then show ?thesis
    by (simp add: insertOrReplace_def find_append_None)
qed

lemma insertVideo_result:
  "snd (insertVideo now d tbl) = Some (rowToVideo (newVideoRow (generateId (filePath d)) now d))"
  using find_insertOrReplace_id [of "newVideoRow (generateId (filePath d)) now d" tbl]
  by (simp add: insertVideo_def Let_def getVideoById_def)

lemma insertVideo_byPath:
  "getVideoByPath (fst (insertVideo now d tbl)) (filePath d) =
   Some (rowToVideo (newVideoRow (generateId (filePath d)) now d))"
  using find_insertOrReplace_path [of "newVideoRow (generateId (filePath d)) now d" tbl]
  by (simp add: insertVideo_def Let_def getVideoByPath_def)

lemma rowToVideo_newVideoRow [simp]:
  "id_v (rowToVideo (newVideoRow i t d)) = i"
  "filePath (rowToVideo (newVideoRow i t d)) = filePath d"
  "hasProxy (rowToVideo (newVideoRow i t d)) = False"
  "hasSprite (rowToVideo (newVideoRow i t d)) = False"
  "proxyPath (rowToVideo (newVideoRow i t d)) = None"
  "spritePath (rowToVideo (newVideoRow i t d)) = None"
  "thumbnailPath (rowToVideo (newVideoRow i t d)) = None"
  "fileHash (rowToVideo (newVideoRow i t d)) = orNull (fileHash d)"
  by (simp_all add: rowToVideo_def newVideoRow_def)

lemma find_map_path:
  assumes "\<And>r. file_path (U r) = file_path r"
  shows "find (\<lambda>r. file_path r = p) (map U xs) = map_option U (find (\<lambda>r. file_path r = p) xs)"
  by (induction xs) (simp_all add: assms)

lemma getVideoByPath_updateThumb:
  "getVideoByPath (updateVideoThumbnailAndSprite i t sp tbl) p =
   map_option rowToVideo (map_option
     (\<lambda>r. if id_col r = i
          then r\<lparr>thumbnail_path := Some t, sprite_path := Some sp, has_sprite := 1\<rparr> else r)
     (find (\<lambda>r. file_path r = p) tbl))"
  unfolding getVideoByPath_def updateVideoThumbnailAndSprite_def
  by (subst find_map_path) simp_all

lemma getVideoByPath_updateThumb_proxy:
  assumes "getVideoByPath tbl p = Some v"
  shows "\<exists>v'. getVideoByPath (updateVideoThumbnailAndSprite i t sp tbl) p = Some v'
    \<and> hasProxy v' = hasProxy v \<and> proxyPath v' = proxyPath v \<and> id_v v' = id_v v
    \<and> filePath v' = filePath v
    \<and> (id_v v = i \<longrightarrow> hasSprite v' \<and> thumbnailPath v' = Some t \<and> spritePath v' = Some sp)"
proof -
  from assms obtain r where r: "find (\<lambda>r. file_path r = p) tbl = Some r" "v = rowToVideo r"
    by (auto simp: getVideoByPath_def)
  then show ?thesis
    by (simp add: getVideoByPath_updateThumb rowToVideo_def)
qed

text \<open>The skip condition of \<open>processVideoFile\<close> for a path: the file is readable and its
  fresh fingerprint is the one stored under the path.\<close>

definition storedFingerprintMatches :: "world \<Rightarrow> VideoRow list \<Rightarrow> string \<Rightarrow> bool" where
  "storedFingerprintMatches w tbl p =
     (case files w p of
        None \<Rightarrow> False
      | Some f \<Rightarrow> unchanged (getVideoByPath tbl p) (fingerprintOf (md5 w) f))"

lemma processVideoFile_skip:
  assumes "storedFingerprintMatches w (videos s) p"
  shows "processVideoFile w p rootPath g s = ((getVideoByPath (videos s) p, True), s)"
  using assms
  by (auto simp: storedFingerprintMatches_def processVideoFile_def getFileFingerprint_def Let_def
      split: option.splits)

lemma processVideoFile_unreadable:
  assumes "files w p = None"
  shows "processVideoFile w p rootPath g s = ((None, False), s)"
  using assms by (simp add: processVideoFile_def getFileFingerprint_def)

lemma processVideoFile_probe_fails:
  assumes "files w p = Some f" "\<not> storedFingerprintMatches w (videos s) p"
    and "getVideoMetadata w p = Inl e"
  shows "processVideoFile w p rootPath g s = ((None, False), logged [Probe p] s)"
  using assms
  by (simp add: storedFingerprintMatches_def processVideoFile_def getFileFingerprint_def Let_def)

text \<open>The \<open>videoData\<close> that \<open>processVideoFile\<close> builds, and the video it gets back from
  \<open>insertVideo\<close>.\<close>

definition videoDataOf :: "world \<Rightarrow> string \<Rightarrow> file_stat \<Rightarrow> FFmpegMetadata \<Rightarrow> VideoInsertData" where
  "videoDataOf w p stats metadata =
     \<lparr> filePath = p, fileName = basename p, fileSize = length (content stats),
       duration = duration_md metadata, width = Some (width_md metadata),
       height = Some (height_md metadata), createdAt = birthtimeISO stats,
       directory = dirname p, fileHash = Some (fingerprintOf (md5 w) stats),
       fileMtime = Some (mtimeISO stats) \<rparr>"

lemma filePath_videoDataOf [simp]: "filePath (videoDataOf w p f md) = p"
  by (simp add: videoDataOf_def)

definition insertedVideo :: "world \<Rightarrow> string \<Rightarrow> file_stat \<Rightarrow> FFmpegMetadata \<Rightarrow> Video" where
  "insertedVideo w p f md = rowToVideo (newVideoRow (generateId p) (nowISO w) (videoDataOf w p f md))"

lemma processVideoFile_probed:
  assumes "files w p = Some f" "\<not> storedFingerprintMatches w (videos s) p"
    and "getVideoMetadata w p = Inr md"
  shows "processVideoFile w p rootPath g s =
    ((Some (insertedVideo w p f md), False),
     (let s2 = (logged [Probe p] s)\<lparr>videos := fst (insertVideo (nowISO w) (videoDataOf w p f md) (videos s))\<rparr>
      in if g \<and> duration_md md > 0
         then generateAssetsForScan w (insertedVideo w p f md) p rootPath (duration_md md) s2
         else s2))"
  using assms insertVideo_result [of "nowISO w" "videoDataOf w p f md" "videos s"]
  by (simp add: storedFingerprintMatches_def processVideoFile_def getFileFingerprint_def Let_def
      videoDataOf_def [symmetric] insertedVideo_def logged_def)

lemma scans_generateAssetsForScan [simp]:
  "scans (generateAssetsForScan w v p rootPath d s) = scans s"
  by (simp add: generateAssetsForScan_def logged_def Let_def split: sum.splits prod.splits)

lemma scans_processVideoFile [simp]:
  "scans (snd (processVideoFile w p rootPath g s)) = scans s"
proof (cases "files w p")
  case None
  then show ?thesis by (simp add: processVideoFile_unreadable)
next
  case (Some f)
  show ?thesis
  proof (cases "storedFingerprintMatches w (videos s) p")
    case True
    then show ?thesis by (simp add: processVideoFile_skip)
  next
    case False
    show ?thesis
    proof (cases "getVideoMetadata w p")
      case (Inl e)
      with Some False show ?thesis
        by (simp add: processVideoFile_probe_fails logged_def)
    next
      case (Inr md)
      with Some False show ?thesis
        by (simp add: processVideoFile_probed logged_def Let_def)
    qed
  qed
qed




lemma filter_countingEvents [simp]:
  "filter (\<lambda>e. phase e = Processing_phase) (countingEvents ps) = []"
  by (simp add: countingEvents_def filter_empty_conv)



text \<open>The id that \<open>createScan\<close> will generate is not in the scans table yet.\<close>

definition scanIdFresh :: "world \<Rightarrow> string \<Rightarrow> state \<Rightarrow> bool" where
  "scanIdFresh w rootPath s =
     (generateId (''scan-'' @ rootPath @ ''-'' @ String_nat (nowMs w)) \<notin> set (map scan_id (scans s)))"

lemma createScan_fresh:
  assumes "scanIdFresh w rootPath s"
  shows "\<exists>i tbl'. createScan w rootPath (scans s) = Inr (i, tbl') \<and> i \<in> set (map scan_id tbl')"
  using assms by (simp add: createScan_def scanIdFresh_def Let_def)


lemma storedFingerprintMatches_Some:
  "storedFingerprintMatches w tbl p \<Longrightarrow> \<exists>v. getVideoByPath tbl p = Some v"
  by (auto simp: storedFingerprintMatches_def unchanged_def split: option.splits)

lemma processVideo_skip:
  assumes "storedFingerprintMatches w (videos (db run)) p"
  shows "videosSkipped (processVideo w rootPath scanId n run p) = videosSkipped run + 1
    \<and> videosProcessed (processVideo w rootPath scanId n run p) = videosProcessed run
    \<and> videosFound (processVideo w rootPath scanId n run p) = videosFound run + 1
    \<and> videos (db (processVideo w rootPath scanId n run p)) = videos (db run)
    \<and> invocations (db (processVideo w rootPath scanId n run p)) = invocations (db run)"
proof -
  from storedFingerprintMatches_Some [OF assms] obtain v where
    "getVideoByPath (videos (db run)) p = Some v" by blast
  then show ?thesis
    by (simp add: processVideo_def processVideoFile_skip [OF assms] Let_def)
qed

lemma foldl_all_unchanged:
  assumes "list_all (storedFingerprintMatches w (videos (db run))) ps"
  shows "videosSkipped (foldl (processVideo w rootPath scanId n) run ps) = videosSkipped run + length ps
    \<and> videosProcessed (foldl (processVideo w rootPath scanId n) run ps) = videosProcessed run
    \<and> videosFound (foldl (processVideo w rootPath scanId n) run ps) = videosFound run + length ps
    \<and> videos (db (foldl (processVideo w rootPath scanId n) run ps)) = videos (db run)
    \<and> invocations (db (foldl (processVideo w rootPath scanId n) run ps)) = invocations (db run)"
  using assms
proof (induction ps arbitrary: run)
  case Nil
  then show ?case by simp
next
  case (Cons p ps)
  from Cons.prems have p: "storedFingerprintMatches w (videos (db run)) p"
    and ps: "list_all (storedFingerprintMatches w (videos (db run))) ps" by simp_all
  note step = processVideo_skip [OF p, of rootPath scanId n]
  from ps step have "list_all (storedFingerprintMatches w
      (videos (db (processVideo w rootPath scanId n run p)))) ps" by simp
  from Cons.IH [OF this] step show ?case by simp
qed



lemma id_v_insertedVideo [simp]: "id_v (insertedVideo w p f md) = generateId p"
  by (simp add: insertedVideo_def)

lemma insertedVideo_assets [simp]:
  "hasProxy (insertedVideo w p f md) = False"
  "hasSprite (insertedVideo w p f md) = False"
  "proxyPath (insertedVideo w p f md) = None"
  "spritePath (insertedVideo w p f md) = None"
  "thumbnailPath (insertedVideo w p f md) = None"
  "filePath (insertedVideo w p f md) = p"
  by (simp_all add: insertedVideo_def)



lemma videos_generateAssetsForScan:
  "videos (generateAssetsForScan w v p rootPath d s) = videos s \<or>
   (\<exists>t sp. videos (generateAssetsForScan w v p rootPath d s) =
      updateVideoThumbnailAndSprite (id_v v) t sp (videos s))"
  by (auto simp: generateAssetsForScan_def logged_def Let_def split: sum.splits prod.splits)

lemma reprocess_loses_proxy:
  assumes "files w p = Some f" "\<not> storedFingerprintMatches w (videos s) p"
    and "getVideoMetadata w p = Inr md"
  shows "\<exists>v. getVideoByPath (videos (snd (processVideoFile w p rootPath g s))) p = Some v
    \<and> \<not> hasProxy v \<and> proxyPath v = None"
proof -
  let ?tbl = "fst (insertVideo (nowISO w) (videoDataOf w p f md) (videos s))"
  let ?s2 = "(logged [Probe p] s)\<lparr>videos := ?tbl\<rparr>"
  have ins: "getVideoByPath ?tbl p = Some (insertedVideo w p f md)"
    using insertVideo_byPath [of "nowISO w" "videoDataOf w p f md" "videos s"]
    by (simp add: insertedVideo_def)
  have plain: "\<exists>v. getVideoByPath (videos ?s2) p = Some v \<and> \<not> hasProxy v \<and> proxyPath v = None"
    using ins by simp
  show ?thesis
  proof (cases "g \<and> duration_md md > 0")
    case False
    then have "snd (processVideoFile w p rootPath g s) = ?s2"
      by (auto simp: processVideoFile_probed [OF assms] Let_def)
    with plain show ?thesis by simp
  next
    case True
    let ?s3 = "generateAssetsForScan w (insertedVideo w p f md) p rootPath (duration_md md) ?s2"
    have res: "snd (processVideoFile w p rootPath g s) = ?s3"
      using True by (simp add: processVideoFile_probed [OF assms] Let_def)
    from videos_generateAssetsForScan [of w "insertedVideo w p f md" p rootPath "duration_md md" ?s2]
    show ?thesis
    proof
      assume "videos ?s3 = videos ?s2"
      with plain res show ?thesis by simp
    next
      assume "\<exists>t sp. videos ?s3 =
        updateVideoThumbnailAndSprite (id_v (insertedVideo w p f md)) t sp (videos ?s2)"
      then obtain t sp where v3: "videos ?s3 =
        updateVideoThumbnailAndSprite (generateId p) t sp ?tbl" by auto
      from getVideoByPath_updateThumb_proxy [OF ins, of "generateId p" t sp]
      obtain v' where "getVideoByPath (updateVideoThumbnailAndSprite (generateId p) t sp ?tbl) p = Some v'"
        "hasProxy v' = False" "proxyPath v' = None"
        by auto
      with res v3 show ?thesis by simp
    qed
  qed
qed

section \<open>Queue order\<close>

lemma map_job_id_upd: "keeps F \<Longrightarrow> map job_id (upd i F tbl) = map job_id tbl"
  by (simp add: upd_def keeps_def)

lemma filter_id_upd_other:
  "keeps F \<Longrightarrow> k \<noteq> i \<Longrightarrow>
   filter (\<lambda>r. job_id r = k) (upd i F tbl) = filter (\<lambda>r. job_id r = k) tbl"
  by (induction tbl) (auto simp: upd_def keeps_def)

lemma filter_id_upd_same:
  "keeps F \<Longrightarrow> filter (\<lambda>r. job_id r = i) (upd i F tbl) = map F (filter (\<lambda>r. job_id r = i) tbl)"
  by (induction tbl) (auto simp: upd_def keeps_def)

lemma mset_ids_remove:
  assumes "distinct (map f xs)" "x \<in> set xs"
  shows "add_mset (f x) (mset (map f (filter (\<lambda>r. f r \<noteq> f x) xs))) = mset (map f xs)"
  using assms
proof (induction xs)
  case Nil
  then show ?case by simp
next
  case (Cons a xs)
  show ?case
  proof (cases "a = x")
    case True
    with Cons.prems have "f x \<notin> f ` set xs" by simp
    then have "\<And>r. r \<in> set xs \<Longrightarrow> f r \<noteq> f x"
      by (metis imageI)
    then have "filter (\<lambda>r. f r \<noteq> f x) xs = xs" by (simp add: filter_id_conv)
    with True show ?thesis by simp
  next
    case False
    with Cons.prems have "x \<in> set xs" "distinct (map f xs)" "f a \<noteq> f x" by auto
    with Cons.IH show ?thesis by simp
  qed
qed

lemma getVideoById_updateVideoProxy_None:
  "getVideoById (updateVideoProxy i a b c vids) k = None \<longleftrightarrow> getVideoById vids k = None"
  by (induction vids) (auto simp: getVideoById_def updateVideoProxy_def)

lemma getVideoById_updateVideoProxy_Some:
  "getVideoById vids k = Some v \<Longrightarrow>
   \<exists>v'. getVideoById (updateVideoProxy i a b c vids) k = Some v'
     \<and> id_v v' = id_v v \<and> filePath v' = filePath v \<and> duration v' = duration v"
  by (induction vids) (auto simp: getVideoById_def updateVideoProxy_def rowToVideo_def)

lemma jobFailure_updateVideoProxy:
  "jobFailure w rootPath (updateVideoProxy i a b c vids) job = jobFailure w rootPath vids job"
proof (cases "getVideoById vids (videoId job)")
  case None
  then show ?thesis
    using getVideoById_updateVideoProxy_None [of i a b c vids "videoId job"]
    by (simp add: jobFailure_def)
next
  case (Some v)
  from getVideoById_updateVideoProxy_Some [OF Some, of i a b c]
  obtain v' where "getVideoById (updateVideoProxy i a b c vids) (videoId job) = Some v'"
    "id_v v' = id_v v" "filePath v' = filePath v" "duration v' = duration v"
    by blast
  with Some show ?thesis
    by (simp add: jobFailure_def)
qed

lemma videos_processJob:
  "videos (processJob w rootPath job s) = videos s \<or>
   (\<exists>i a b c. videos (processJob w rootPath job s) = updateVideoProxy i a b c (videos s))"
  by (auto simp: processJob_def Let_def logged_def split: option.splits sum.splits)

lemma jobFailure_processJob:
  "jobFailure w rootPath (videos (processJob w rootPath job s)) job' =
   jobFailure w rootPath (videos s) job'"
  using videos_processJob [of w rootPath job s]
  by (auto simp: jobFailure_updateVideoProxy)

text \<open>The row of a job after its iteration.\<close>

definition finished :: "world \<Rightarrow> string \<Rightarrow> VideoRow list \<Rightarrow> ProxyJob \<Rightarrow> ProxyJobRow \<Rightarrow> bool" where
  "finished w rootPath vids job r =
     (status r = (if jobFailure w rootPath vids job = None then Complete else Error)
      \<and> error r = jobFailure w rootPath vids job
      \<and> progress r = (if jobFailure w rootPath vids job = None then 100 else 0))"

lemma getNextQueuedJob_least:
  assumes "getNextQueuedJob tbl = Some job"
  shows "\<exists>row. row \<in> set tbl \<and> status row = Queued \<and> job = rowToProxyJob row
    \<and> (\<forall>r. r \<in> set tbl \<and> status r = Queued \<longrightarrow> job_created_at row \<le> job_created_at r)"
  using assms by (elim getNextQueuedJob_Some) blast

lemma drain_fifo:
  "distinct (map job_id (proxy_queue s)) \<Longrightarrow>
   sorted (map createdAt_j (snd (drain w rootPath s)))
   \<and> mset (map id_j (snd (drain w rootPath s))) =
       mset (map job_id (filter (\<lambda>r. status r = Queued) (proxy_queue s)))
   \<and> createdAt_j ` set (snd (drain w rootPath s)) \<subseteq>
       job_created_at ` set (filter (\<lambda>r. status r = Queued) (proxy_queue s))
   \<and> filter (\<lambda>r. status r = Queued) (proxy_queue (fst (drain w rootPath s))) = []
   \<and> (\<forall>k. k \<notin> set (map id_j (snd (drain w rootPath s))) \<longrightarrow>
         filter (\<lambda>r. job_id r = k) (proxy_queue (fst (drain w rootPath s))) =
         filter (\<lambda>r. job_id r = k) (proxy_queue s))
   \<and> (\<forall>job \<in> set (snd (drain w rootPath s)). \<forall>r \<in> set (proxy_queue (fst (drain w rootPath s))).
         job_id r = id_j job \<longrightarrow> finished w rootPath (videos s) job r)"
proof (induction w rootPath s rule: drain.induct)
  case (1 w rootPath s)
  let ?q = "proxy_queue s"
  let ?queued = "filter (\<lambda>r. status r = Queued) ?q"
  show ?case
  proof (cases "getNextQueuedJob ?q")
    case None
    then have d: "drain w rootPath s = (s, [])"
      by (subst drain.simps) simp
    from None have "?queued = []" by (simp add: getNextQueuedJob_None)
    with d show ?thesis by simp
  next
    case (Some job)
    let ?s1 = "processJob w rootPath job s"
    let ?i = "id_j job"
    obtain s' jobs where rec: "drain w rootPath ?s1 = (s', jobs)"
      by (cases "drain w rootPath ?s1")
    have d: "drain w rootPath s = (s', job # jobs)"
      using Some rec by (subst drain.simps) simp
    from getNextQueuedJob_least [OF Some] obtain row where row: "row \<in> set ?q"
      "status row = Queued" "job = rowToProxyJob row"
      and least: "\<And>r. r \<in> set ?q \<Longrightarrow> status r = Queued \<Longrightarrow> job_created_at row \<le> job_created_at r"
      by blast
    have i: "?i = job_id row" and c: "createdAt_j job = job_created_at row"
      using row(3) by simp_all
    obtain F where Fk: "keeps F"
      and Ff: "\<And>r. finished w rootPath (videos s) job (F r)"
      and Fq: "proxy_queue ?s1 = upd ?i F ?q"
      using processJob_upd [of w rootPath s job] unfolding finished_def by blast
    have Fnq: "\<And>r. status (F r) \<noteq> Queued"
      using Ff by (simp add: finished_def)
    have q1: "filter (\<lambda>r. status r = Queued) (proxy_queue ?s1) =
        filter (\<lambda>r. job_id r \<noteq> ?i) ?queued"
      by (simp only: Fq filter_queued_upd [of F, OF Fnq])
    have dist1: "distinct (map job_id (proxy_queue ?s1))"
      using "1.prems" Fk by (simp add: Fq map_job_id_upd)
    note IH = "1.IH" [OF Some dist1, unfolded rec fst_conv snd_conv q1]
    from IH have srt: "sorted (map createdAt_j jobs)"
      and ms: "mset (map id_j jobs) = mset (map job_id (filter (\<lambda>r. job_id r \<noteq> ?i) ?queued))"
      and sub: "createdAt_j ` set jobs \<subseteq> job_created_at ` set (filter (\<lambda>r. job_id r \<noteq> ?i) ?queued)"
      and emp: "filter (\<lambda>r. status r = Queued) (proxy_queue s') = []"
      and frame: "\<And>k. k \<notin> set (map id_j jobs) \<Longrightarrow>
         filter (\<lambda>r. job_id r = k) (proxy_queue s') = filter (\<lambda>r. job_id r = k) (proxy_queue ?s1)"
      and fin: "\<And>job' r. job' \<in> set jobs \<Longrightarrow> r \<in> set (proxy_queue s') \<Longrightarrow>
         job_id r = id_j job' \<Longrightarrow> finished w rootPath (videos ?s1) job' r"
      by blast+
    have rq: "row \<in> set ?queued" using row by simp
    have distq: "distinct (map job_id ?queued)"
      using "1.prems" by (rule distinct_map_filter)
    \<comment> \<open>creation order\<close>
    have "\<And>j. j \<in> set jobs \<Longrightarrow> createdAt_j job \<le> createdAt_j j"
    proof -
      fix j assume "j \<in> set jobs"
      with sub obtain r where "r \<in> set ?queued" "createdAt_j j = job_created_at r"
        by auto
      with least [of r] c show "createdAt_j job \<le> createdAt_j j" by simp
    qed
    with srt have A: "sorted (map createdAt_j (job # jobs))" by auto
    \<comment> \<open>every queued job is claimed once\<close>
    have B: "mset (map id_j (job # jobs)) = mset (map job_id ?queued)"
      using mset_ids_remove [OF distq rq] ms i by simp
    have C: "createdAt_j ` set (job # jobs) \<subseteq> job_created_at ` set ?queued"
      using sub rq c by auto
    \<comment> \<open>the rows of other jobs\<close>
    have inot: "?i \<notin> set (map id_j jobs)"
    proof
      assume "?i \<in> set (map id_j jobs)"
      then have "?i \<in># mset (map id_j jobs)" by simp
      with ms have "?i \<in> set (map job_id (filter (\<lambda>r. job_id r \<noteq> ?i) ?queued))"
        by (metis set_mset_mset)
      then show False by auto
    qed
    have E: "\<forall>k. k \<notin> set (map id_j (job # jobs)) \<longrightarrow>
        filter (\<lambda>r. job_id r = k) (proxy_queue s') = filter (\<lambda>r. job_id r = k) ?q"
    proof (intro allI impI)
      fix k assume k: "k \<notin> set (map id_j (job # jobs))"
      then have "k \<noteq> ?i" "k \<notin> set (map id_j jobs)" by auto
      with frame [of k] show "filter (\<lambda>r. job_id r = k) (proxy_queue s') = filter (\<lambda>r. job_id r = k) ?q"
        by (simp add: Fq filter_id_upd_other [OF Fk])
    qed
    have G: "\<forall>job' \<in> set (job # jobs). \<forall>r \<in> set (proxy_queue s').
        job_id r = id_j job' \<longrightarrow> finished w rootPath (videos s) job' r"
    proof (intro ballI impI)
      fix job' r
      assume j: "job' \<in> set (job # jobs)" and r: "r \<in> set (proxy_queue s')"
        and e: "job_id r = id_j job'"
      show "finished w rootPath (videos s) job' r"
      proof (cases "job' \<in> set jobs")
        case True
        from fin [OF True r e] show ?thesis
          by (simp add: finished_def jobFailure_processJob)
      next
        case False
        with j have jj: "job' = job" by simp
        from r e jj have "r \<in> set (filter (\<lambda>r. job_id r = ?i) (proxy_queue s'))" by simp
        then have "r \<in> set (filter (\<lambda>r. job_id r = ?i) (proxy_queue ?s1))"
          using frame [OF inot] by simp
        then have "r \<in> set (map F (filter (\<lambda>r. job_id r = ?i) ?q))"
          using Fk by (simp only: Fq filter_id_upd_same)
        then obtain r0 where "r = F r0" by auto
        with Ff jj show ?thesis by simp
      qed
    qed
    from A B C emp E G show ?thesis
      unfolding d fst_conv snd_conv by blast
  qed
qed

section \<open>Queue progress\<close>



definition proxyReports :: "(string \<times> real) list \<Rightarrow> real list" where
  "proxyReports calls = map snd (filter (\<lambda>c. fst c = ''proxy'') calls)"



definition trackAll :: "tracker \<Rightarrow> (string \<times> real) list \<Rightarrow> tracker" where
  "trackAll t seen = foldl (\<lambda>t c. track c t) t seen"



lemma trackAll_Nil [simp]: "trackAll t [] = t"
  by (simp add: trackAll_def)






lemma ids_update [simp]:
  "map job_id (updateProxyJobStatus w i st p e tbl) = map job_id tbl"
  by (induction tbl) (auto simp: updateProxyJobStatus_def)

lemma ids_onProgress [simp]: "map job_id (snd (onProgress w i st c)) = map job_id (snd st)"
  by (simp add: onProgress_def Let_def)

lemma ids_foldl_onProgress [simp]:
  "map job_id (snd (foldl (onProgress w i) st calls)) = map job_id (snd st)"
  by (induction calls arbitrary: st) simp_all









lemma proxyReports_Nil [simp]: "proxyReports [] = []"
  by (simp add: proxyReports_def)








section \<open>The scan: skipped files, failures, re-processing\<close>

text \<open>
  C3. A file whose path has a stored record with the fingerprint just computed is skipped:
  the unit returns the stored record, marked skipped, and leaves the state as it was (no
  probe, no insert or update, no generation). A scan of a directory all of whose files are
  in this case invokes no probe and no generation, leaves the videos table unchanged,
  processes nothing and skips every file of the walk; when the table holds exactly the
  files of the walk, the skip count is the number of stored videos.
\<close>

theorem unchanged_files_are_skipped:
  assumes "readdir w rootPath = Some tree" and "scanIdFresh w rootPath s"
    and "list_all (storedFingerprintMatches w (videos s)) (scanDirectory rootPath tree)"
  shows "list_all (\<lambda>p. getVideoByPath (videos s) p \<noteq> None
            \<and> processVideoFile w p rootPath True s = ((getVideoByPath (videos s) p, True), s))
          (scanDirectory rootPath tree)
    \<and> (\<exists>run i. scanAndProcessDirectory w rootPath s = Inr (run, i)
          \<and> videosSkipped run = length (scanDirectory rootPath tree)
          \<and> videosProcessed run = 0
          \<and> videosFound run = length (scanDirectory rootPath tree)
          \<and> videos (db run) = videos s
          \<and> invocations (db run) = invocations s
          \<and> (mset (map file_path (videos s)) = mset (scanDirectory rootPath tree)
               \<longrightarrow> videosSkipped run = length (videos s)))"
proof -
  define paths where "paths = scanDirectory rootPath tree"
  have units: "list_all (\<lambda>p. getVideoByPath (videos s) p \<noteq> None
      \<and> processVideoFile w p rootPath True s = ((getVideoByPath (videos s) p, True), s)) paths"
    using assms(3) unfolding paths_def [symmetric] list_all_iff
    by (auto simp: processVideoFile_skip dest: storedFingerprintMatches_Some)
  from createScan_fresh [OF assms(2)] obtain i tbl' where
    cs: "createScan w rootPath (scans s) = Inr (i, tbl')" by auto
  define run0 where "run0 = \<lparr> videosFound = 0, videosProcessed = 0, videosSkipped = 0,
      db = s\<lparr>currentRootPath := Some rootPath, scans := tbl'\<rparr>, emitted = countingEvents paths \<rparr>"
  define run1 where "run1 = foldl (processVideo w rootPath i (length paths)) run0 paths"
  define run where "run = run1\<lparr>db := (db run1)\<lparr>scans := completeScan w i (videosFound run1) (scans (db run1))\<rparr>\<rparr>"
  have res: "scanAndProcessDirectory w rootPath s = Inr (run, i)"
    using assms(1) cs
    by (simp add: scanAndProcessDirectory_def Let_def run_def run1_def run0_def paths_def)
  have v0: "videos (db run0) = videos s" "invocations (db run0) = invocations s"
    "videosSkipped run0 = 0" "videosProcessed run0 = 0" "videosFound run0 = 0"
    by (simp_all add: run0_def)
  have "list_all (storedFingerprintMatches w (videos (db run0))) paths"
    using assms(3) by (simp add: v0 paths_def)
  from foldl_all_unchanged [OF this, of rootPath i "length paths"]
  have f: "videosSkipped run1 = length paths" "videosProcessed run1 = 0"
    "videosFound run1 = length paths" "videos (db run1) = videos s"
    "invocations (db run1) = invocations s"
    by (simp_all add: run1_def v0)
  have r: "videosSkipped run = length paths" "videosProcessed run = 0"
    "videosFound run = length paths" "videos (db run) = videos s"
    "invocations (db run) = invocations s"
    using f by (simp_all add: run_def)
  have "videosSkipped run = length (videos s)"
    if "mset (map file_path (videos s)) = mset paths"
  proof -
    from that have "size (mset (map file_path (videos s))) = size (mset paths)" by simp
    then show ?thesis using r(1) by simp
  qed
  with units res r show ?thesis
    unfolding paths_def by blast
qed


text \<open>A small environment: three videos in \<open>/v\<close>; the probe of \<open>b.mp4\<close> fails and so
  does the thumbnail of \<open>a.mp4\<close>.\<close>

definition demoFile :: "string \<Rightarrow> file_stat" where
  "demoFile body = \<lparr> content = body, mtimeISO = ''2024-06-01T12:00:00.000Z'',
                      birthtimeISO = ''2024-05-01T08:00:00.000Z'' \<rparr>"

definition demoMetadata :: FFmpegMetadata where
  "demoMetadata = \<lparr> duration_md = 30, width_md = 1920, height_md = 1080, codec = ''h264'',
                     frameRate = Num 30, bitRate = 8000000 \<rparr>"

definition demoDir :: listing where
  "demoDir = Entries [RegularFile ''a.mp4'', RegularFile ''b.mp4'', RegularFile ''c.mp4'']"

definition demoWorld :: world where
  "demoWorld =
     \<lparr> files = (\<lambda>p. if p = ''/v/a.mp4'' then Some (demoFile ''aaaa'')
                   else if p = ''/v/b.mp4'' then Some (demoFile ''bbbbbb'')
                   else if p = ''/v/c.mp4'' then Some (demoFile ''cc'')
                   else None),
       md5 = (\<lambda>bytes. bytes),
       readdir = (\<lambda>p. if p = ''/v'' then Some demoDir else None),
       ffprobe = (\<lambda>p. if p = ''/v/b.mp4'' then Inl ''ffprobe exited with code 1: ''
                     else Inr demoMetadata),
       mkdir = (\<lambda>p. None),
       ffmpegThumbnail = (\<lambda>inputPath outputPath.
                     if inputPath = ''/v/a.mp4''
                     then Some ''ffmpeg thumbnail exited with code 1: '' else None),
       ffmpegSprite = (\<lambda>inputPath outputPath. None),
       assetsRun = (\<lambda>inputPath.
                     if inputPath = ''/v/a.mp4''
                     then ([ProxyOutTime 3000000], Some ''ffmpeg thumbnail exited with code 1: '')
                     else ([ProxyOutTime 3000000, ThumbnailDone, ProxyOutTime 15000000,
                            SpriteDone, ProxyOutTime 30000000, ProxyDone], None)),
       nowISO = ''2024-06-02T00:00:00.000Z'',
       nowMs = 1717286400000 \<rparr>"

definition emptyState :: state where
  "emptyState = \<lparr> videos = [], proxy_queue = [], scans = [], currentRootPath = None,
                   isGenerating = False, invocations = [] \<rparr>"

definition storedRow :: "string \<Rightarrow> string \<Rightarrow> VideoRow" where
  "storedRow p body =
     newVideoRow (generateId p) ''2024-06-01T13:00:00.000Z''
       (videoDataOf demoWorld p (demoFile body) demoMetadata)"

definition indexedState :: state where
  "indexedState = emptyState\<lparr>videos :=
     [storedRow ''/v/a.mp4'' ''aaaa'', storedRow ''/v/b.mp4'' ''bbbbbb'',
      storedRow ''/v/c.mp4'' ''cc'']\<rparr>"

lemma demo_paths: "scanDirectory ''/v'' demoDir = [''/v/a.mp4'', ''/v/b.mp4'', ''/v/c.mp4'']"
  by (simp add: demoDir_def shouldSkipPath_def startsWith_def isVideoFile_def extname_def
      toLowerCase_def lowerChar_def VIDEO_EXTENSIONS_def path_join_def)

lemma demo_readdir: "readdir demoWorld ''/v'' = Some demoDir"
  by (simp add: demoWorld_def)

lemma demo_fresh: "scanIdFresh demoWorld ''/v'' indexedState" "scanIdFresh demoWorld ''/v'' emptyState"
  by (simp_all add: scanIdFresh_def indexedState_def emptyState_def)

lemma file_path_storedRow [simp]: "file_path (storedRow p body) = p"
  by (simp add: storedRow_def)

lemma fileHash_storedRow:
  "fileHash (rowToVideo (storedRow p body)) = Some (fingerprintOf (md5 demoWorld) (demoFile body))"
  by (simp add: storedRow_def videoDataOf_def orNull_def fingerprintOf_def demoWorld_def
      fingerprintInput_def demoFile_def)

lemma demo_matches:
  "list_all (storedFingerprintMatches demoWorld (videos indexedState))
     [''/v/a.mp4'', ''/v/b.mp4'', ''/v/c.mp4'']"
proof -
  have f: "files demoWorld ''/v/a.mp4'' = Some (demoFile ''aaaa'')"
    "files demoWorld ''/v/b.mp4'' = Some (demoFile ''bbbbbb'')"
    "files demoWorld ''/v/c.mp4'' = Some (demoFile ''cc'')"
    by (simp_all add: demoWorld_def)
  show ?thesis
    by (simp add: storedFingerprintMatches_def f unchanged_def getVideoByPath_def indexedState_def
        emptyState_def fileHash_storedRow)
qed

theorem unchanged_files_are_skipped_witness:
  "readdir demoWorld ''/v'' = Some demoDir
   \<and> scanIdFresh demoWorld ''/v'' indexedState
   \<and> list_all (storedFingerprintMatches demoWorld (videos indexedState)) (scanDirectory ''/v'' demoDir)
   \<and> (\<exists>run i. scanAndProcessDirectory demoWorld ''/v'' indexedState = Inr (run, i)
         \<and> videosSkipped run = 3 \<and> videosProcessed run = 0 \<and> videosFound run = 3
         \<and> invocations (db run) = [])"
proof -
  have h3: "list_all (storedFingerprintMatches demoWorld (videos indexedState))
      (scanDirectory ''/v'' demoDir)"
    unfolding demo_paths by (rule demo_matches)
  from unchanged_files_are_skipped [OF demo_readdir demo_fresh(1) h3]
  obtain run i where "scanAndProcessDirectory demoWorld ''/v'' indexedState = Inr (run, i)"
    "videosSkipped run = length (scanDirectory ''/v'' demoDir)" "videosProcessed run = 0"
    "videosFound run = length (scanDirectory ''/v'' demoDir)"
    "invocations (db run) = invocations indexedState"
    by blast
  then have "\<exists>run i. scanAndProcessDirectory demoWorld ''/v'' indexedState = Inr (run, i)
         \<and> videosSkipped run = 3 \<and> videosProcessed run = 0 \<and> videosFound run = 3
         \<and> invocations (db run) = []"
    by (simp add: demo_paths indexedState_def emptyState_def)
  with demo_readdir demo_fresh(1) h3 show ?thesis by blast
qed




lemma demo_files:
  "files demoWorld ''/v/a.mp4'' = Some (demoFile ''aaaa'')"
  "files demoWorld ''/v/b.mp4'' = Some (demoFile ''bbbbbb'')"
  "files demoWorld ''/v/c.mp4'' = Some (demoFile ''cc'')"
  by (simp_all add: demoWorld_def)


lemma demo_probe:
  "getVideoMetadata demoWorld ''/v/a.mp4'' = Inr demoMetadata"
  "getVideoMetadata demoWorld ''/v/b.mp4'' = Inl ''ffprobe exited with code 1: ''"
  "getVideoMetadata demoWorld ''/v/c.mp4'' = Inr demoMetadata"
  by (simp_all add: getVideoMetadata_def demoWorld_def)










text \<open>
  C10. \<open>insertVideo\<close> stores a row without proxy or sprite and with no asset path, under
  the path it was given. Re-processing a changed file goes through it, and after the unit
  (which regenerates at most the thumbnail and the sprite) the record of the path has no
  proxy: \<open>hasProxy\<close> is false and \<open>proxyPath\<close> is null, whatever the record held before.
\<close>

theorem reprocessing_resets_assets:
  assumes "files w p = Some f" and "\<not> storedFingerprintMatches w (videos s) p"
    and "getVideoMetadata w p = Inr md"
  shows "(\<exists>v. snd (insertVideo now d tbl) = Some v
            \<and> getVideoByPath (fst (insertVideo now d tbl)) (filePath d) = Some v
            \<and> \<not> hasProxy v \<and> \<not> hasSprite v
            \<and> proxyPath v = None \<and> spritePath v = None \<and> thumbnailPath v = None)
    \<and> (\<exists>v. getVideoByPath (videos (snd (processVideoFile w p rootPath g s))) p = Some v
            \<and> \<not> hasProxy v \<and> proxyPath v = None)"
proof -
  have "snd (insertVideo now d tbl) = Some (rowToVideo (newVideoRow (generateId (filePath d)) now d))"
    by (rule insertVideo_result)
  moreover have "getVideoByPath (fst (insertVideo now d tbl)) (filePath d) =
      Some (rowToVideo (newVideoRow (generateId (filePath d)) now d))"
    by (rule insertVideo_byPath)
  ultimately have A: "\<exists>v. snd (insertVideo now d tbl) = Some v
            \<and> getVideoByPath (fst (insertVideo now d tbl)) (filePath d) = Some v
            \<and> \<not> hasProxy v \<and> \<not> hasSprite v
            \<and> proxyPath v = None \<and> spritePath v = None \<and> thumbnailPath v = None"
    by simp
  from reprocess_loses_proxy [OF assms, of rootPath g] A show ?thesis by blast
qed

text \<open>A catalog in which \<open>c.mp4\<close> was indexed with other content and has a proxy.\<close>

definition proxiedRow :: VideoRow where
  "proxiedRow = (storedRow ''/v/c.mp4'' ''old'')
     \<lparr> has_proxy := 1, has_sprite := 1,
       proxy_path := Some ''/v/.vcb-data/proxies/c_proxy.mp4'',
       sprite_path := Some ''/v/.vcb-data/proxies/c_sprite.jpg'',
       thumbnail_path := Some ''/v/.vcb-data/proxies/c_thumb.jpg'' \<rparr>"

definition proxiedState :: state where
  "proxiedState = emptyState\<lparr>videos := [proxiedRow]\<rparr>"

lemma proxied_before:
  "\<exists>v. getVideoByPath (videos proxiedState) ''/v/c.mp4'' = Some v \<and> hasProxy v
     \<and> proxyPath v = Some ''/v/.vcb-data/proxies/c_proxy.mp4''"
  by (simp add: proxiedState_def emptyState_def proxiedRow_def getVideoByPath_def rowToVideo_def)

lemma proxied_changed: "\<not> storedFingerprintMatches demoWorld (videos proxiedState) ''/v/c.mp4''"
  by (simp add: storedFingerprintMatches_def demo_files unchanged_def proxiedState_def
      emptyState_def proxiedRow_def getVideoByPath_def rowToVideo_def storedRow_def
      newVideoRow_def videoDataOf_def orNull_def fingerprintOf_def fingerprintInput_def
      demoFile_def demoWorld_def)

theorem reprocessing_resets_assets_witness:
  "files demoWorld ''/v/c.mp4'' = Some (demoFile ''cc'')
   \<and> \<not> storedFingerprintMatches demoWorld (videos proxiedState) ''/v/c.mp4''
   \<and> getVideoMetadata demoWorld ''/v/c.mp4'' = Inr demoMetadata
   \<and> (\<exists>v. getVideoByPath (videos proxiedState) ''/v/c.mp4'' = Some v \<and> hasProxy v
         \<and> proxyPath v = Some ''/v/.vcb-data/proxies/c_proxy.mp4'')
   \<and> (\<exists>v. getVideoByPath
             (videos (snd (processVideoFile demoWorld ''/v/c.mp4'' ''/v'' True proxiedState)))
             ''/v/c.mp4'' = Some v
         \<and> \<not> hasProxy v \<and> proxyPath v = None)"
  using reprocessing_resets_assets [OF demo_files(3) proxied_changed demo_probe(3), of _ _ _ "''/v''" True]
    demo_files(3) proxied_changed demo_probe(3) proxied_before
  by blast

section \<open>The queue worker\<close>

text \<open>
  C4. Started on a table with distinct job ids, the worker claims the queued jobs in the
  order of their creation times, each of them once, and leaves none queued. A job whose
  video is missing or whose generation fails ends in \<open>error\<close> with the failure detail and
  progress 0; the others end \<open>complete\<close> with progress 100; a failure never keeps a later
  job from being claimed. The running flag is cleared at the end.
\<close>

theorem queue_fifo_no_blocking:
  assumes "distinct (map job_id (proxy_queue s))" and "\<not> isGenerating s"
    and "currentRootPath s = Some rootPath" and "rootPath \<noteq> []"
  shows "sorted (map createdAt_j (snd (processQueue w s)))
    \<and> mset (map id_j (snd (processQueue w s))) =
        mset (map job_id (filter (\<lambda>r. status r = Queued) (proxy_queue s)))
    \<and> filter (\<lambda>r. status r = Queued) (proxy_queue (fst (processQueue w s))) = []
    \<and> (\<forall>job \<in> set (snd (processQueue w s)). \<forall>r \<in> set (proxy_queue (fst (processQueue w s))).
          job_id r = id_j job \<longrightarrow> finished w rootPath (videos s) job r)
    \<and> \<not> isGenerating (fst (processQueue w s))"
proof -
  let ?s1 = "s\<lparr>isGenerating := True\<rparr>"
  obtain s' jobs where d: "drain w rootPath ?s1 = (s', jobs)"
    by (cases "drain w rootPath ?s1")
  have pq: "processQueue w s = (s'\<lparr>isGenerating := False\<rparr>, jobs)"
    using assms(2,3,4) d by (simp add: processQueue_def)
  have "distinct (map job_id (proxy_queue ?s1))" using assms(1) by simp
  from drain_fifo [OF this, of w rootPath, unfolded d fst_conv snd_conv]
  show ?thesis
    unfolding pq fst_conv snd_conv by simp
qed

text \<open>A queue of three queued jobs, out of creation order in the table, and a finished one;
  the video of \<open>j3\<close> is not in the catalog, the assets of \<open>a.mp4\<close> (job \<open>j1\<close>) fail.\<close>

definition queuedJob :: "string \<Rightarrow> string \<Rightarrow> string \<Rightarrow> ProxyJobRow" where
  "queuedJob i v t = \<lparr> job_id = i, video_id = v, status = Queued, progress = 0,
                        job_created_at = t, started_at = None, completed_at = None,
                        error = None \<rparr>"

definition queueState :: state where
  "queueState = emptyState
     \<lparr> videos := [(storedRow ''/v/a.mp4'' ''aaaa'')\<lparr>id_col := ''va''\<rparr>,
                  (storedRow ''/v/c.mp4'' ''cc'')\<lparr>id_col := ''vc''\<rparr>],
       proxy_queue := [queuedJob ''j1'' ''va'' ''2024-06-01T12:00:02.000Z'',
                       queuedJob ''j2'' ''vc'' ''2024-06-01T12:00:01.000Z'',
                       (queuedJob ''j0'' ''vc'' ''2024-06-01T11:00:00.000Z'')
                         \<lparr>status := Complete, progress := 100\<rparr>,
                       queuedJob ''j3'' ''gone'' ''2024-06-01T12:00:03.000Z''],
       currentRootPath := Some ''/v'' \<rparr>"

lemma queueState_hyps:
  "distinct (map job_id (proxy_queue queueState))" "\<not> isGenerating queueState"
  "currentRootPath queueState = Some ''/v''" "''/v'' \<noteq> []"
  by (simp_all add: queueState_def emptyState_def queuedJob_def)

lemma queueState_queued:
  "map job_id (filter (\<lambda>r. status r = Queued) (proxy_queue queueState)) = [''j1'', ''j2'', ''j3'']"
  by (simp add: queueState_def emptyState_def queuedJob_def)

lemma queue_next1:
  "getNextQueuedJob (proxy_queue queueState) =
     Some (rowToProxyJob (queuedJob ''j2'' ''vc'' ''2024-06-01T12:00:01.000Z''))"
  by (simp add: getNextQueuedJob_def queueState_def emptyState_def queuedJob_def)

lemma demo_trace: "map id_j (snd (processQueue demoWorld queueState)) = [''j2'', ''j1'', ''j3'']"
  by (simp add: processQueue_def drain.simps getNextQueuedJob_def queueState_def emptyState_def
      queuedJob_def processJob_def generateAllProxyAssets_def ensureProxyDir_def demoWorld_def
      progressCall_def onProgress_def track_def overallProgress_def Math_round_def
      proxyPercent_def updateProxyJobStatus_def getVideoById_def rowToVideo_def storedRow_def
      newVideoRow_def videoDataOf_def logged_def updateVideoProxy_def rowToProxyJob_def
      orNull_def String_error_def tracker0_def getVideoMetadata_def demoMetadata_def
      path_join_def getProxyDir_def getDataDir_def Let_def demoFile_def)


lemma demo_final:
  "map (\<lambda>r. (job_id r, status r, progress r, error r))
     (proxy_queue (fst (processQueue demoWorld queueState))) =
   [(''j1'', Error, 0, Some ''Error: ffmpeg thumbnail exited with code 1: ''),
    (''j2'', Complete, 100, None),
    (''j0'', Complete, 100, None),
    (''j3'', Error, 0, Some ''Video not found'')]"
  by (simp add: processQueue_def drain.simps getNextQueuedJob_def queueState_def emptyState_def
      queuedJob_def processJob_def generateAllProxyAssets_def ensureProxyDir_def demoWorld_def
      progressCall_def onProgress_def track_def overallProgress_def Math_round_def
      proxyPercent_def updateProxyJobStatus_def getVideoById_def rowToVideo_def storedRow_def
      newVideoRow_def videoDataOf_def logged_def updateVideoProxy_def rowToProxyJob_def
      orNull_def String_error_def tracker0_def getVideoMetadata_def demoMetadata_def
      path_join_def getProxyDir_def getDataDir_def Let_def demoFile_def)

theorem queue_fifo_no_blocking_witness:
  "distinct (map job_id (proxy_queue queueState))
   \<and> \<not> isGenerating queueState
   \<and> currentRootPath queueState = Some ''/v''
   \<and> map id_j (snd (processQueue demoWorld queueState)) = [''j2'', ''j1'', ''j3'']
   \<and> sorted (map createdAt_j (snd (processQueue demoWorld queueState)))
   \<and> filter (\<lambda>r. status r = Queued) (proxy_queue (fst (processQueue demoWorld queueState))) = []
   \<and> map (\<lambda>r. (job_id r, status r, progress r, error r))
        (proxy_queue (fst (processQueue demoWorld queueState))) =
      [(''j1'', Error, 0, Some ''Error: ffmpeg thumbnail exited with code 1: ''),
       (''j2'', Complete, 100, None),
       (''j0'', Complete, 100, None),
       (''j3'', Error, 0, Some ''Video not found'')]"
  using queue_fifo_no_blocking [OF queueState_hyps, of demoWorld] queueState_hyps
    demo_trace demo_final
  by blast








end
